theory Spec2Isabelle
  imports Main "HOL-Library.AList"
begin

section \<open>The authenticating gateway (auth/main.go)\<close>

text \<open>
  The gateway is two handlers of \<^verbatim>\<open>net/http\<close>: \<^verbatim>\<open>validateJWT\<close>, which wraps a
  handler behind a bearer-token check, and \<^verbatim>\<open>proxyHandler\<close>, which forwards a
  request to the origin in the global \<^verbatim>\<open>targetDomain\<close>. Both are embedded as
  functions on an explicit state. What they call in the Go standard library and in
  \<^verbatim>\<open>golang-jwt/jwt/v4\<close> is not part of the repository: the small documented pieces
  (header maps, \<^verbatim>\<open>strings.TrimPrefix\<close>, \<^verbatim>\<open>http.Error\<close>, the response writer's
  write-once status) are written out, and everything that depends on the outside
  world (base64 and JSON decoding, signature verification, the clock, request
  construction, the round trip to the upstream) is a field of the record \<open>env\<close>,
  about which nothing is assumed.
\<close>

subsection \<open>Header maps\<close>

text \<open>
  \<^verbatim>\<open>http.Header\<close> is \<^verbatim>\<open>map[string][]string\<close>. It is kept as an association list;
  the order of the list is the order in which a \<^verbatim>\<open>range\<close> over the map yields its
  entries, which Go leaves unspecified, so a statement for every list is a
  statement for every iteration order. \<^verbatim>\<open>Get\<close>, \<^verbatim>\<open>Add\<close> and \<^verbatim>\<open>Set\<close> first pass the key
  through \<^verbatim>\<open>textproto.CanonicalMIMEHeaderKey\<close>, the parameter \<open>ck\<close> here.
\<close>

type_synonym Header = "(string \<times> string list) list"

definition Header_Values :: "Header \<Rightarrow> string \<Rightarrow> string list" where
  "Header_Values h k = (case map_of h k of None \<Rightarrow> [] | Some vs \<Rightarrow> vs)"

definition Header_Get :: "(string \<Rightarrow> string) \<Rightarrow> Header \<Rightarrow> string \<Rightarrow> string" where
  "Header_Get ck h key = (case Header_Values h (ck key) of [] \<Rightarrow> [] | v # _ \<Rightarrow> v)"

definition Header_Add :: "(string \<Rightarrow> string) \<Rightarrow> Header \<Rightarrow> string \<Rightarrow> string \<Rightarrow> Header" where
  "Header_Add ck h key v = AList.update (ck key) (Header_Values h (ck key) @ [v]) h"

definition Header_Set :: "(string \<Rightarrow> string) \<Rightarrow> Header \<Rightarrow> string \<Rightarrow> string \<Rightarrow> Header" where
  "Header_Set ck h key v = AList.update (ck key) [v] h"

subsection \<open>Requests, responses and the response writer\<close>

record URL =
  Path :: string
  RawQuery :: string

record Request =
  Method :: string
  URL :: URL
  Header :: Header
  Body :: string

text \<open>
  The request that \<^verbatim>\<open>http.NewRequest(method, url, body)\<close> builds; its URL is kept as
  the string it was given.
\<close>

record OutboundRequest =
  OutMethod :: string
  OutURL :: string
  OutHeader :: Header
  OutBody :: string

text \<open>
  An upstream body is a stream: it delivers \<open>Content\<close> and then ends, with the
  end of the stream or with the read error \<open>ReadErr\<close>.
\<close>

record BodyStream =
  Content :: string
  ReadErr :: "string option"

record Response =
  StatusCode :: nat
  RespHeader :: Header
  RespBody :: BodyStream

text \<open>
  The \<^verbatim>\<open>http.ResponseWriter\<close> of one request. \<open>header\<close> is the map \<^verbatim>\<open>w.Header()\<close>
  returns; the first \<^verbatim>\<open>WriteHeader\<close> sends the status line together with the
  header map as it is at that moment, and every later \<^verbatim>\<open>WriteHeader\<close> is ignored.
  \<open>body\<close> is what the connection has accepted; \<open>room\<close> is how many more bytes it
  accepts before writes fail (\<open>None\<close>: it never fails).
\<close>

record ResponseWriter =
  header :: Header
  wroteHeader :: bool
  status :: nat
  sentHeader :: Header
  body :: string
  room :: "nat option"

definition StatusOK :: nat where "StatusOK = 200"
definition StatusUnauthorized :: nat where "StatusUnauthorized = 401"
definition StatusForbidden :: nat where "StatusForbidden = 403"
definition StatusInternalServerError :: nat where "StatusInternalServerError = 500"
definition StatusBadGateway :: nat where "StatusBadGateway = 502"

definition WriteHeader :: "nat \<Rightarrow> ResponseWriter \<Rightarrow> ResponseWriter" where
  "WriteHeader code w =
     (if wroteHeader w then w
      else w\<lparr>wroteHeader := True, status := code, sentHeader := header w\<rparr>)"

definition Write :: "string \<Rightarrow> ResponseWriter \<Rightarrow> ResponseWriter \<times> string option" where
  "Write bs w =
     (let w1 = (if wroteHeader w then w else WriteHeader StatusOK w) in
      case room w1 of
        None \<Rightarrow> (w1\<lparr>body := body w1 @ bs\<rparr>, None)
      | Some n \<Rightarrow>
          if length bs \<le> n
          then (w1\<lparr>body := body w1 @ bs, room := Some (n - length bs)\<rparr>, None)
          else (w1\<lparr>body := body w1 @ take n bs, room := Some 0\<rparr>, Some ''short write''))"

text \<open>
  \<^verbatim>\<open>http.Error(w, error, code)\<close>: two header fields are set, the status is
  written, and \<^verbatim>\<open>fmt.Fprintln(w, error)\<close> writes the message and a newline, its
  result discarded.
\<close>

definition http_Error :: "(string \<Rightarrow> string) \<Rightarrow> ResponseWriter \<Rightarrow> string \<Rightarrow> nat \<Rightarrow> ResponseWriter" where
  "http_Error ck w err code =
     (let h1 = Header_Set ck (header w) ''Content-Type'' ''text/plain; charset=utf-8'';
          h2 = Header_Set ck h1 ''X-Content-Type-Options'' ''nosniff'';
          w1 = WriteHeader code (w\<lparr>header := h2\<rparr>)
      in fst (Write (err @ [CHR 0x0A]) w1))"

text \<open>
  \<^verbatim>\<open>io.Copy(w, src)\<close>: what the stream delivers is written; a failed write ends
  the copy with the write's error, otherwise the stream's read error, if it has
  one, is the result.
\<close>

definition io_Copy :: "ResponseWriter \<Rightarrow> BodyStream \<Rightarrow> ResponseWriter \<times> string option" where
  "io_Copy w src =
     (case Write (Content src) w of
        (w', Some e) \<Rightarrow> (w', Some e)
      | (w', None) \<Rightarrow> (w', ReadErr src))"

subsection \<open>Strings\<close>

definition TrimPrefix :: "string \<Rightarrow> string \<Rightarrow> string" where
  "TrimPrefix s p = (if take (length p) s = p then drop (length p) s else s)"

text \<open>\<^verbatim>\<open>strings.Split\<close> at a one-byte separator.\<close>

fun Split :: "string \<Rightarrow> char \<Rightarrow> string list" where
  "Split [] sep = [[]]"
| "Split (c # cs) sep =
     (if c = sep then [] # Split cs sep
      else (case Split cs sep of [] \<Rightarrow> [[c]] | p # ps \<Rightarrow> (c # p) # ps))"

subsection \<open>Claims and tokens\<close>

record UserJwtClaims =
  Id_claim :: int
  FirstName :: "string option"
  LastName :: "string option"
  Role :: string

text \<open>
  \<^verbatim>\<open>MyCustomClaims\<close> embeds \<^verbatim>\<open>UserJwtClaims\<close> and \<^verbatim>\<open>jwt.RegisteredClaims\<close>; the
  numeric dates are seconds.
\<close>

record MyCustomClaims = UserJwtClaims +
  Type :: string
  Issuer :: string
  Subject :: string
  Audience :: "string list"
  ExpiresAt :: "int option"
  NotBefore :: "int option"
  IssuedAt :: "int option"
  ID :: string

text \<open>
  The signing methods of the library; the callback of \<^verbatim>\<open>validateJWT\<close> looks only
  at whether the method has the type \<^verbatim>\<open>*jwt.SigningMethodHMAC\<close>. The string is the
  \<^verbatim>\<open>alg\<close> name.
\<close>

datatype SigningMethod = SigningMethodHMAC string | SigningMethodOther string

record Token =
  Raw :: string
  TokenMethod :: SigningMethod
  Claims :: MyCustomClaims
  Signature :: string
  Valid :: bool

datatype ValidationError =
  ValidationErrorMalformed string
  | ValidationErrorUnverifiable string
  | ValidationErrorInvalid bool bool

subsection \<open>The outside world\<close>

record env =
  canonicalKey :: "string \<Rightarrow> string"
  decodeSegments :: "string \<Rightarrow> string \<Rightarrow> ValidationError + SigningMethod \<times> MyCustomClaims"
  verifySignature :: "SigningMethod \<Rightarrow> string \<Rightarrow> string \<Rightarrow> string \<Rightarrow> bool"
  now :: int
  newRequestError :: "string \<Rightarrow> string \<Rightarrow> string option"
  clientDo :: "OutboundRequest \<Rightarrow> string + Response"

text \<open>The globals \<^verbatim>\<open>jwtSecret\<close> and \<^verbatim>\<open>targetDomain\<close>, set once in \<^verbatim>\<open>main\<close>.\<close>

record globals =
  jwtSecret :: string
  targetDomain :: string

subsection \<open>The token parser of the library\<close>

text \<open>
  \<^verbatim>\<open>RegisteredClaims.Valid\<close>: a date that is absent is not checked; a token is
  expired from its expiry second on, and not yet usable before its issue and
  not-before seconds.
\<close>

definition claimsValid :: "int \<Rightarrow> MyCustomClaims \<Rightarrow> bool" where
  "claimsValid t c =
     ((case ExpiresAt c of None \<Rightarrow> True | Some e \<Rightarrow> t < e) \<and>
      (case IssuedAt c of None \<Rightarrow> True | Some i \<Rightarrow> i \<le> t) \<and>
      (case NotBefore c of None \<Rightarrow> True | Some n \<Rightarrow> n \<le> t))"

text \<open>
  \<^verbatim>\<open>jwt.ParseWithClaims(tokenString, &MyCustomClaims{}, keyFunc)\<close>. The token must
  have three segments separated by dots; the first two are decoded
  (\<open>decodeSegments\<close>) into the signing method and the claims; the callback gives
  the key or refuses; the claims are validated against the clock and the
  signature of the first two segments is verified with the key. The error is
  \<^verbatim>\<open>nil\<close> exactly when the result is \<open>Inr\<close>.
\<close>

definition ParseWithClaims ::
  "env \<Rightarrow> string \<Rightarrow> (Token \<Rightarrow> string + string) \<Rightarrow> ValidationError + Token" where
  "ParseWithClaims E tokenString keyFunc =
     (case Split tokenString CHR ''.'' of
        [p0, p1, p2] \<Rightarrow>
          (case decodeSegments E p0 p1 of
             Inl e \<Rightarrow> Inl e
           | Inr (m, c) \<Rightarrow>
               (let token = \<lparr>Raw = tokenString, TokenMethod = m, Claims = c,
                              Signature = [], Valid = False\<rparr> in
                case keyFunc token of
                  Inl e \<Rightarrow> Inl (ValidationErrorUnverifiable e)
                | Inr key \<Rightarrow>
                    (let claimsBad = \<not> claimsValid (now E) c;
                         sigBad = \<not> verifySignature E m (p0 @ ''.'' @ p1) p2 key
                     in if claimsBad \<or> sigBad
                        then Inl (ValidationErrorInvalid claimsBad sigBad)
                        else Inr (token\<lparr>Signature := p2, Valid := True\<rparr>))))
      | _ \<Rightarrow> Inl (ValidationErrorMalformed ''token contains an invalid number of segments''))"

subsection \<open>The handlers\<close>

text \<open>
  A call on \<^verbatim>\<open>logs\<close>, the \<^verbatim>\<open>LoggerInterface\<close> of the process: the handlers only
  ever call \<^verbatim>\<open>ErrorF\<close>, with a format and the error it is about.
\<close>

datatype LogCall = LogErrorF string "string list"

text \<open>
  What a handler can change: the response writer of the request, the requests
  given to \<^verbatim>\<open>client.Do\<close>, the calls made on \<^verbatim>\<open>logs\<close>, and the number of upstream
  bodies closed.
\<close>

record world =
  rw :: ResponseWriter
  dispatched :: "OutboundRequest list"
  diagnostics :: "LogCall list"
  closed :: nat

type_synonym handler = "world \<Rightarrow> Request \<Rightarrow> world"

fun In :: "'a \<Rightarrow> 'a list \<Rightarrow> bool" where
  "In item [] = False"
| "In item (i # items) = (if i = item then True else In item items)"

definition allowedRoles :: "string list" where
  "allowedRoles = [''ADMIN'', ''USER'', ''COURIER'', ''MANAGER'', ''CLIENT'', ''VENDOR'']"

text \<open>The callback given to the parser.\<close>

definition keyFunc :: "globals \<Rightarrow> Token \<Rightarrow> string + string" where
  "keyFunc G token =
     (case TokenMethod token of
        SigningMethodHMAC _ \<Rightarrow> Inr (jwtSecret G)
      | SigningMethodOther _ \<Rightarrow> Inl ''unexpected signing method'')"

text \<open>
  \<^verbatim>\<open>validateJWT(next)\<close>. The type assertion on \<^verbatim>\<open>token.Claims\<close> always succeeds,
  since the parser was given a \<^verbatim>\<open>*MyCustomClaims\<close> to fill.
\<close>

definition validateJWT :: "env \<Rightarrow> globals \<Rightarrow> handler \<Rightarrow> handler" where
  "validateJWT E G next st r =
     (let authHeader = Header_Get (canonicalKey E) (Header r) ''Authorization'' in
      if authHeader = []
      then st\<lparr>rw := http_Error (canonicalKey E) (rw st) ''Missing token'' StatusUnauthorized\<rparr>
      else
        (let tokenString = TrimPrefix authHeader ''Bearer '' in
         case ParseWithClaims E tokenString (keyFunc G) of
           Inl err \<Rightarrow>
             st\<lparr>rw := http_Error (canonicalKey E) (rw st) ''Invalid token'' StatusUnauthorized\<rparr>
         | Inr token \<Rightarrow>
             if \<not> Valid token
             then st\<lparr>rw := http_Error (canonicalKey E) (rw st) ''Invalid token'' StatusUnauthorized\<rparr>
             else if \<not> In (Role (Claims token)) allowedRoles
             then st\<lparr>rw := http_Error (canonicalKey E) (rw st) ''Forbidden'' StatusForbidden\<rparr>
             else next st r))"

text \<open>\<^verbatim>\<open>http.NewRequest\<close>: an empty method means GET; the header map starts empty.\<close>

definition NewRequest :: "env \<Rightarrow> string \<Rightarrow> string \<Rightarrow> string \<Rightarrow> string + OutboundRequest" where
  "NewRequest E method url b =
     (let m = (if method = [] then ''GET'' else method) in
      case newRequestError E m url of
        Some e \<Rightarrow> Inl e
      | None \<Rightarrow> Inr \<lparr>OutMethod = m, OutURL = url, OutHeader = [], OutBody = b\<rparr>)"

text \<open>The two nested loops that copy a header map with \<^verbatim>\<open>Add\<close>.\<close>

fun addValues :: "(string \<Rightarrow> string) \<Rightarrow> string \<Rightarrow> string list \<Rightarrow> Header \<Rightarrow> Header" where
  "addValues ck key [] h = h"
| "addValues ck key (v # vs) h = addValues ck key vs (Header_Add ck h key v)"

fun copyHeaders :: "(string \<Rightarrow> string) \<Rightarrow> Header \<Rightarrow> Header \<Rightarrow> Header" where
  "copyHeaders ck [] h = h"
| "copyHeaders ck ((key, vals) # rest) h = copyHeaders ck rest (addValues ck key vals h)"

definition proxyHandler :: "env \<Rightarrow> globals \<Rightarrow> handler" where
  "proxyHandler E G st r =
     (let targetURL = targetDomain G @ Path (URL r) in
      case NewRequest E (Method r) targetURL (Body r) of
        Inl err \<Rightarrow>
          st\<lparr>rw := http_Error (canonicalKey E) (rw st) ''Error creating request''
                     StatusInternalServerError,
             diagnostics := diagnostics st @ [LogErrorF ''Error creating request: %v'' [err]]\<rparr>
      | Inr req0 \<Rightarrow>
          (let req = req0\<lparr>OutHeader := copyHeaders (canonicalKey E) (Header r) (OutHeader req0)\<rparr>;
               st1 = st\<lparr>dispatched := dispatched st @ [req]\<rparr>
           in case clientDo E req of
                Inl err \<Rightarrow>
                  st1\<lparr>rw := http_Error (canonicalKey E) (rw st1) ''Error forwarding request''
                              StatusBadGateway,
                      diagnostics := diagnostics st1 @ [LogErrorF ''Error forwarding request: %v'' [err]]\<rparr>
              | Inr resp \<Rightarrow>
                  (let w1 = (rw st1)\<lparr>header := copyHeaders (canonicalKey E) (RespHeader resp)
                                                  (header (rw st1))\<rparr>;
                       w2 = WriteHeader (StatusCode resp) w1;
                       st2 = (case io_Copy w2 (RespBody resp) of
                                (w3, None) \<Rightarrow> st1\<lparr>rw := w3\<rparr>
                              | (w3, Some err) \<Rightarrow>
                                  st1\<lparr>rw := http_Error (canonicalKey E) w3 ''Error proxying response''
                                              StatusInternalServerError,
                                      diagnostics := diagnostics st1 @
                                        [LogErrorF ''Error proxying response: %v'' [err]]\<rparr>)
                   in st2\<lparr>closed := Suc (closed st2)\<rparr>)))"

text \<open>The route registered in \<^verbatim>\<open>main\<close>: the gate around the forwarding handler.\<close>

definition serve :: "env \<Rightarrow> globals \<Rightarrow> handler" where
  "serve E G = validateJWT E G (proxyHandler E G)"

subsection \<open>Notions of the specification\<close>

text \<open>
  The gate accepts a request: it carries a token that the parser accepts and
  whose role is one of the allowed ones.
\<close>

definition authorized :: "env \<Rightarrow> globals \<Rightarrow> Request \<Rightarrow> bool" where
  "authorized E G r =
     (let authHeader = Header_Get (canonicalKey E) (Header r) ''Authorization'' in
      authHeader \<noteq> [] \<and>
      (case ParseWithClaims E (TrimPrefix authHeader ''Bearer '') (keyFunc G) of
         Inl err \<Rightarrow> False
       | Inr token \<Rightarrow> Valid token \<and> In (Role (Claims token)) allowedRoles))"

text \<open>
  The tokens the specification wants refused: structurally malformed (not three
  segments, or segments that do not decode), a signing method outside the HMAC
  family, expired, or a signature that does not verify under the configured
  secret.
\<close>

definition refusedToken :: "env \<Rightarrow> globals \<Rightarrow> string \<Rightarrow> bool" where
  "refusedToken E G tokenString =
     (case Split tokenString CHR ''.'' of
        [p0, p1, p2] \<Rightarrow>
          (case decodeSegments E p0 p1 of
             Inl e \<Rightarrow> True
           | Inr (m, c) \<Rightarrow>
               (case m of SigningMethodHMAC a \<Rightarrow> False | SigningMethodOther a \<Rightarrow> True)
               \<or> (case ExpiresAt c of None \<Rightarrow> False | Some e \<Rightarrow> e \<le> now E)
               \<or> \<not> verifySignature E m (p0 @ ''.'' @ p1) p2 (jwtSecret G))
      | _ \<Rightarrow> True)"

text \<open>
  The full inbound path including any query component: the path, and the query
  after a question mark when there is one.
\<close>

definition fullPath :: "URL \<Rightarrow> string" where
  "fullPath u = (if RawQuery u = [] then Path u else Path u @ ''?'' @ RawQuery u)"

section \<open>The logger (package logger)\<close>

text \<open>
  A buffered channel \<^verbatim>\<open>make(chan T, n)\<close> is its capacity and the values waiting in
  it, oldest first. A send or a receive that cannot happen now does not fail: the
  goroutine waits, which is the result \<open>Blocks\<close>, and the channel is as it was.
\<close>

record 'a chan =
  cap :: nat
  buf :: "'a list"

datatype 'a step = Blocks | Proceeds 'a

definition make_chan :: "nat \<Rightarrow> 'a chan" where
  "make_chan n = \<lparr>cap = n, buf = []\<rparr>"

definition send :: "'a \<Rightarrow> 'a chan \<Rightarrow> 'a chan step" where
  "send v c = (if length (buf c) < cap c then Proceeds (c\<lparr>buf := buf c @ [v]\<rparr>) else Blocks)"

definition recv :: "'a chan \<Rightarrow> ('a \<times> 'a chan) step" where
  "recv c = (case buf c of [] \<Rightarrow> Blocks | v # vs \<Rightarrow> Proceeds (v, c\<lparr>buf := vs\<rparr>))"

text \<open>
  A value of type \<^verbatim>\<open>error\<close> is \<^verbatim>\<open>nil\<close> (\<open>None\<close>) or an error with the text its
  \<^verbatim>\<open>Error()\<close> returns. \<open>once\<close> is whether the \<^verbatim>\<open>sync.Once\<close> has run its function.
\<close>

type_synonym goerror = "string option"

record Logger =
  errChan :: "goerror chan"
  warnChan :: "string chan"
  infoChan :: "string chan"
  once :: bool

definition NewLogger :: Logger where
  "NewLogger = \<lparr>errChan = make_chan 100, warnChan = make_chan 100, infoChan = make_chan 100,
                 once = False\<rparr>"

text \<open>
  The part of the process the logger acts on: the logger itself, the file
  handles \<^verbatim>\<open>OpenLogFile\<close> has opened (by name; none is ever closed), the number of
  goroutines running the loop of \<^verbatim>\<open>StartListener\<close>, the lines in the three log
  files and the lines printed on standard output. A line of a log file is its
  level and its message; the time stamp \<^verbatim>\<open>slog\<close> puts in front is left out.
\<close>

datatype Level = ERROR | WARN | INFO

datatype LogLine = LogLine Level string

datatype OpenFlag = O_APPEND | O_CREATE | O_WRONLY

record process =
  logger :: Logger
  openFiles :: "string list"
  listeners :: nat
  errorsLog :: "LogLine list"
  warningsLog :: "LogLine list"
  infoLog :: "LogLine list"
  stdout :: "string list"

text \<open>\<^verbatim>\<open>log.Fatal\<close> ends the process.\<close>

datatype exit = Fatal string

text \<open>
  \<^verbatim>\<open>OpenLogFile\<close>; \<open>openError\<close> is the answer of \<^verbatim>\<open>os.OpenFile\<close>, \<open>None\<close> when the
  file opens.
\<close>

definition OpenLogFile ::
  "(string \<Rightarrow> OpenFlag list \<Rightarrow> nat \<Rightarrow> string option) \<Rightarrow> string \<Rightarrow> OpenFlag list \<Rightarrow> nat \<Rightarrow>
   process \<Rightarrow> exit + process" where
  "OpenLogFile openError logFileName flag perm p =
     (case openError logFileName flag perm of
        Some err \<Rightarrow> Inl (Fatal (''Could not open log file: '' @ logFileName @ '', '' @ err))
      | None \<Rightarrow> Inr (p\<lparr>openFiles := openFiles p @ [logFileName]\<rparr>))"

definition StartListener ::
  "(string \<Rightarrow> OpenFlag list \<Rightarrow> nat \<Rightarrow> string option) \<Rightarrow> process \<Rightarrow> exit + process" where
  "StartListener openError p =
     (if once (logger p) then Inr p
      else
        (case OpenLogFile openError ''logger/errors.log'' [O_APPEND, O_CREATE, O_WRONLY] 420 p of
           Inl e \<Rightarrow> Inl e
         | Inr p1 \<Rightarrow>
        (case OpenLogFile openError ''logger/warnings.log'' [O_APPEND, O_CREATE, O_WRONLY] 420 p1 of
           Inl e \<Rightarrow> Inl e
         | Inr p2 \<Rightarrow>
        (case OpenLogFile openError ''logger/info.log'' [O_APPEND, O_CREATE, O_WRONLY] 420 p2 of
           Inl e \<Rightarrow> Inl e
         | Inr p3 \<Rightarrow>
             Inr (p3\<lparr>listeners := Suc (listeners p3),
                     logger := (logger p3)\<lparr>once := True\<rparr>\<rparr>)))))"

text \<open>\<open>n\<close> calls of \<^verbatim>\<open>StartListener\<close>, one after the other.\<close>

fun StartListener_times ::
  "nat \<Rightarrow> (string \<Rightarrow> OpenFlag list \<Rightarrow> nat \<Rightarrow> string option) \<Rightarrow> process \<Rightarrow> exit + process" where
  "StartListener_times 0 openError p = Inr p"
| "StartListener_times (Suc n) openError p =
     (case StartListener openError p of
        Inl e \<Rightarrow> Inl e
      | Inr p' \<Rightarrow> StartListener_times n openError p')"

text \<open>
  One turn of the loop in the goroutine: the \<^verbatim>\<open>select\<close> takes one of its three
  cases, which must have a value ready. Which ready case it takes is not
  determined, so the case is an argument. Without a goroutine nothing happens.
\<close>

datatype selectCase = CaseErr | CaseWarn | CaseInfo

definition listenerStep :: "selectCase \<Rightarrow> process \<Rightarrow> process step" where
  "listenerStep c p =
     (if listeners p = 0 then Blocks
      else case c of
        CaseErr \<Rightarrow>
          (case recv (errChan (logger p)) of
             Blocks \<Rightarrow> Blocks
           | Proceeds (err, ch) \<Rightarrow>
               (let p1 = p\<lparr>logger := (logger p)\<lparr>errChan := ch\<rparr>\<rparr> in
                case err of
                  None \<Rightarrow> Proceeds p1
                | Some msg \<Rightarrow>
                    Proceeds (p1\<lparr>errorsLog := errorsLog p1 @ [LogLine ERROR msg],
                                 stdout := stdout p1 @ [msg]\<rparr>)))
      | CaseWarn \<Rightarrow>
          (case recv (warnChan (logger p)) of
             Blocks \<Rightarrow> Blocks
           | Proceeds (warning, ch) \<Rightarrow>
               (let p1 = p\<lparr>logger := (logger p)\<lparr>warnChan := ch\<rparr>\<rparr> in
                Proceeds (p1\<lparr>warningsLog := warningsLog p1 @ [LogLine WARN warning],
                             stdout := stdout p1 @ [warning]\<rparr>)))
      | CaseInfo \<Rightarrow>
          (case recv (infoChan (logger p)) of
             Blocks \<Rightarrow> Blocks
           | Proceeds (info, ch) \<Rightarrow>
               (let p1 = p\<lparr>logger := (logger p)\<lparr>infoChan := ch\<rparr>\<rparr> in
                Proceeds (p1\<lparr>infoLog := infoLog p1 @ [LogLine INFO info],
                             stdout := stdout p1 @ [info]\<rparr>))))"

text \<open>
  The seven methods that submit a record. \<open>sprintf\<close> stands for \<^verbatim>\<open>fmt.Sprintf\<close>,
  which is also the text of the error \<^verbatim>\<open>fmt.Errorf\<close> makes.
\<close>

definition Error :: "goerror \<Rightarrow> Logger \<Rightarrow> Logger step" where
  "Error err l =
     (case send err (errChan l) of Blocks \<Rightarrow> Blocks | Proceeds ch \<Rightarrow> Proceeds (l\<lparr>errChan := ch\<rparr>))"

definition ErrorF :: "(string \<Rightarrow> string list \<Rightarrow> string) \<Rightarrow> string \<Rightarrow> string list \<Rightarrow> Logger \<Rightarrow> Logger step" where
  "ErrorF sprintf err args l =
     (case send (Some (sprintf err args)) (errChan l) of
        Blocks \<Rightarrow> Blocks | Proceeds ch \<Rightarrow> Proceeds (l\<lparr>errChan := ch\<rparr>))"

definition ErrorStr :: "(string \<Rightarrow> string list \<Rightarrow> string) \<Rightarrow> string \<Rightarrow> string list \<Rightarrow> Logger \<Rightarrow> Logger step" where
  "ErrorStr sprintf err args l =
     (case send (Some (sprintf err args)) (errChan l) of
        Blocks \<Rightarrow> Blocks | Proceeds ch \<Rightarrow> Proceeds (l\<lparr>errChan := ch\<rparr>))"

definition Warn :: "string \<Rightarrow> Logger \<Rightarrow> Logger step" where
  "Warn warning l =
     (case send warning (warnChan l) of
        Blocks \<Rightarrow> Blocks | Proceeds ch \<Rightarrow> Proceeds (l\<lparr>warnChan := ch\<rparr>))"

definition WarnF :: "(string \<Rightarrow> string list \<Rightarrow> string) \<Rightarrow> string \<Rightarrow> string list \<Rightarrow> Logger \<Rightarrow> Logger step" where
  "WarnF sprintf warning args l =
     (case send (sprintf warning args) (warnChan l) of
        Blocks \<Rightarrow> Blocks | Proceeds ch \<Rightarrow> Proceeds (l\<lparr>warnChan := ch\<rparr>))"

definition Info :: "string \<Rightarrow> Logger \<Rightarrow> Logger step" where
  "Info info l =
     (case send info (infoChan l) of
        Blocks \<Rightarrow> Blocks | Proceeds ch \<Rightarrow> Proceeds (l\<lparr>infoChan := ch\<rparr>))"

definition InfoF :: "(string \<Rightarrow> string list \<Rightarrow> string) \<Rightarrow> string \<Rightarrow> string list \<Rightarrow> Logger \<Rightarrow> Logger step" where
  "InfoF sprintf info args l =
     (case send (sprintf info args) (infoChan l) of
        Blocks \<Rightarrow> Blocks | Proceeds ch \<Rightarrow> Proceeds (l\<lparr>infoChan := ch\<rparr>))"

subsection \<open>Executions of producers and the listener\<close>

text \<open>
  A call of one of the seven methods, as a value, and what an execution is made
  of: calls of producers and turns of the listener, in the order in which they
  take effect. An execution in which a step would have to wait at its place is
  not an execution (\<open>Blocks\<close>): the waiting goroutine takes its step later.
\<close>

datatype submission =
  CallError goerror
  | CallErrorF string "string list"
  | CallErrorStr string "string list"
  | CallWarn string
  | CallWarnF string "string list"
  | CallInfo string
  | CallInfoF string "string list"

fun submit :: "(string \<Rightarrow> string list \<Rightarrow> string) \<Rightarrow> submission \<Rightarrow> Logger \<Rightarrow> Logger step" where
  "submit sprintf (CallError err) l = Error err l"
| "submit sprintf (CallErrorF f args) l = ErrorF sprintf f args l"
| "submit sprintf (CallErrorStr f args) l = ErrorStr sprintf f args l"
| "submit sprintf (CallWarn w) l = Warn w l"
| "submit sprintf (CallWarnF f args) l = WarnF sprintf f args l"
| "submit sprintf (CallInfo i) l = Info i l"
| "submit sprintf (CallInfoF f args) l = InfoF sprintf f args l"

datatype action = Produce submission | Listen selectCase

fun act :: "(string \<Rightarrow> string list \<Rightarrow> string) \<Rightarrow> action \<Rightarrow> process \<Rightarrow> process step" where
  "act sprintf (Produce s) p =
     (case submit sprintf s (logger p) of
        Blocks \<Rightarrow> Blocks | Proceeds l \<Rightarrow> Proceeds (p\<lparr>logger := l\<rparr>))"
| "act sprintf (Listen c) p = listenerStep c p"

fun execute :: "(string \<Rightarrow> string list \<Rightarrow> string) \<Rightarrow> action list \<Rightarrow> process \<Rightarrow> process step" where
  "execute sprintf [] p = Proceeds p"
| "execute sprintf (a # as) p =
     (case act sprintf a p of Blocks \<Rightarrow> Blocks | Proceeds p' \<Rightarrow> execute sprintf as p')"

text \<open>
  The lines that records of the three kinds become: a \<^verbatim>\<open>nil\<close> error becomes none.
  \<open>submittedErrors\<close>, \<open>submittedWarnings\<close> and \<open>submittedInfos\<close> are the records the
  producers of an execution submit, in order.
\<close>

fun errorLines :: "goerror list \<Rightarrow> LogLine list" where
  "errorLines [] = []"
| "errorLines (None # es) = errorLines es"
| "errorLines (Some msg # es) = LogLine ERROR msg # errorLines es"

fun submittedErrors :: "(string \<Rightarrow> string list \<Rightarrow> string) \<Rightarrow> action list \<Rightarrow> goerror list" where
  "submittedErrors sprintf [] = []"
| "submittedErrors sprintf (Produce (CallError err) # as) = err # submittedErrors sprintf as"
| "submittedErrors sprintf (Produce (CallErrorF f args) # as) =
     Some (sprintf f args) # submittedErrors sprintf as"
| "submittedErrors sprintf (Produce (CallErrorStr f args) # as) =
     Some (sprintf f args) # submittedErrors sprintf as"
| "submittedErrors sprintf (a # as) = submittedErrors sprintf as"

fun submittedWarnings :: "(string \<Rightarrow> string list \<Rightarrow> string) \<Rightarrow> action list \<Rightarrow> string list" where
  "submittedWarnings sprintf [] = []"
| "submittedWarnings sprintf (Produce (CallWarn w) # as) = w # submittedWarnings sprintf as"
| "submittedWarnings sprintf (Produce (CallWarnF f args) # as) =
     sprintf f args # submittedWarnings sprintf as"
| "submittedWarnings sprintf (a # as) = submittedWarnings sprintf as"

fun submittedInfos :: "(string \<Rightarrow> string list \<Rightarrow> string) \<Rightarrow> action list \<Rightarrow> string list" where
  "submittedInfos sprintf [] = []"
| "submittedInfos sprintf (Produce (CallInfo i) # as) = i # submittedInfos sprintf as"
| "submittedInfos sprintf (Produce (CallInfoF f args) # as) =
     sprintf f args # submittedInfos sprintf as"
| "submittedInfos sprintf (a # as) = submittedInfos sprintf as"

text \<open>The process as \<^verbatim>\<open>main\<close> has it after \<^verbatim>\<open>logger.NewLogger()\<close>.\<close>

definition newProcess :: process where
  "newProcess = \<lparr>logger = NewLogger, openFiles = [], listeners = 0, errorsLog = [],
                  warningsLog = [], infoLog = [], stdout = []\<rparr>"

subsection \<open>Concurrent calls of StartListener\<close>






definition logFiles :: "string list" where
  "logFiles = [''logger/errors.log'', ''logger/warnings.log'', ''logger/info.log'']"

text \<open>The process after the one start: three handles, one goroutine.\<close>

definition startedProcess :: process where
  "startedProcess = newProcess\<lparr>openFiles := logFiles, listeners := 1,
                                logger := NewLogger\<lparr>once := True\<rparr>\<rparr>"



subsection \<open>Notions of the specification for the logger\<close>

text \<open>
  The queue a call submits to, by its length; the logger after the record of the
  call has been put at the end of that queue; and the case of the \<^verbatim>\<open>select\<close> that
  takes from that queue.
\<close>

fun queueLength :: "submission \<Rightarrow> Logger \<Rightarrow> nat" where
  "queueLength (CallError err) l = length (buf (errChan l))"
| "queueLength (CallErrorF f args) l = length (buf (errChan l))"
| "queueLength (CallErrorStr f args) l = length (buf (errChan l))"
| "queueLength (CallWarn w) l = length (buf (warnChan l))"
| "queueLength (CallWarnF f args) l = length (buf (warnChan l))"
| "queueLength (CallInfo i) l = length (buf (infoChan l))"
| "queueLength (CallInfoF f args) l = length (buf (infoChan l))"

fun enqueued :: "(string \<Rightarrow> string list \<Rightarrow> string) \<Rightarrow> submission \<Rightarrow> Logger \<Rightarrow> Logger" where
  "enqueued sprintf (CallError err) l = l\<lparr>errChan := (errChan l)\<lparr>buf := buf (errChan l) @ [err]\<rparr>\<rparr>"
| "enqueued sprintf (CallErrorF f args) l =
     l\<lparr>errChan := (errChan l)\<lparr>buf := buf (errChan l) @ [Some (sprintf f args)]\<rparr>\<rparr>"
| "enqueued sprintf (CallErrorStr f args) l =
     l\<lparr>errChan := (errChan l)\<lparr>buf := buf (errChan l) @ [Some (sprintf f args)]\<rparr>\<rparr>"
| "enqueued sprintf (CallWarn w) l = l\<lparr>warnChan := (warnChan l)\<lparr>buf := buf (warnChan l) @ [w]\<rparr>\<rparr>"
| "enqueued sprintf (CallWarnF f args) l =
     l\<lparr>warnChan := (warnChan l)\<lparr>buf := buf (warnChan l) @ [sprintf f args]\<rparr>\<rparr>"
| "enqueued sprintf (CallInfo i) l = l\<lparr>infoChan := (infoChan l)\<lparr>buf := buf (infoChan l) @ [i]\<rparr>\<rparr>"
| "enqueued sprintf (CallInfoF f args) l =
     l\<lparr>infoChan := (infoChan l)\<lparr>buf := buf (infoChan l) @ [sprintf f args]\<rparr>\<rparr>"

fun selectCaseOf :: "submission \<Rightarrow> selectCase" where
  "selectCaseOf (CallError err) = CaseErr"
| "selectCaseOf (CallErrorF f args) = CaseErr"
| "selectCaseOf (CallErrorStr f args) = CaseErr"
| "selectCaseOf (CallWarn w) = CaseWarn"
| "selectCaseOf (CallWarnF f args) = CaseWarn"
| "selectCaseOf (CallInfo i) = CaseInfo"
| "selectCaseOf (CallInfoF f args) = CaseInfo"

text \<open>
  For the proofs: the three capacities are 100; and what an execution from \<open>p\<close>
  to \<open>p'\<close> that submits the errors \<open>es\<close>, the warnings \<open>ws\<close> and the infos \<open>is\<close>
  keeps: the capacities, the bounds, and for each kind the lines written
  followed by the lines still queued.
\<close>

definition caps100 :: "Logger \<Rightarrow> bool" where
  "caps100 l = (cap (errChan l) = 100 \<and> cap (warnChan l) = 100 \<and> cap (infoChan l) = 100)"

definition ledger :: "process \<Rightarrow> goerror list \<Rightarrow> string list \<Rightarrow> string list \<Rightarrow> process \<Rightarrow> bool" where
  "ledger p es ws is p' =
     (cap (errChan (logger p')) = cap (errChan (logger p))
      \<and> cap (warnChan (logger p')) = cap (warnChan (logger p))
      \<and> cap (infoChan (logger p')) = cap (infoChan (logger p))
      \<and> (length (buf (errChan (logger p))) \<le> cap (errChan (logger p)) \<longrightarrow>
           length (buf (errChan (logger p'))) \<le> cap (errChan (logger p)))
      \<and> (length (buf (warnChan (logger p))) \<le> cap (warnChan (logger p)) \<longrightarrow>
           length (buf (warnChan (logger p'))) \<le> cap (warnChan (logger p)))
      \<and> (length (buf (infoChan (logger p))) \<le> cap (infoChan (logger p)) \<longrightarrow>
           length (buf (infoChan (logger p'))) \<le> cap (infoChan (logger p)))
      \<and> errorsLog p' @ errorLines (buf (errChan (logger p'))) =
          errorsLog p @ errorLines (buf (errChan (logger p))) @ errorLines es
      \<and> warningsLog p' @ map (LogLine WARN) (buf (warnChan (logger p'))) =
          warningsLog p @ map (LogLine WARN) (buf (warnChan (logger p))) @ map (LogLine WARN) ws
      \<and> infoLog p' @ map (LogLine INFO) (buf (infoChan (logger p'))) =
          infoLog p @ map (LogLine INFO) (buf (infoChan (logger p))) @ map (LogLine INFO) is)"

subsection \<open>A small world to run the handlers in\<close>

text \<open>
  A toy instance of the outside world, for evaluating the handlers on concrete
  requests: keys are already canonical, the first segment of a token names its
  header (\<open>hs\<close>: HMAC, expiring at second 2000; \<open>old\<close>: HMAC, expired at second
  500; \<open>rs\<close>: an asymmetric method), the second segment is the role, and a
  signature verifies when it is the key itself. The clock stands at second 1000
  and the upstream answers every request with status 200.
\<close>

definition exampleClaims :: "string \<Rightarrow> int option \<Rightarrow> MyCustomClaims" where
  "exampleClaims role exp =
     \<lparr>Id_claim = 7, FirstName = None, LastName = None, Role = role, Type = ''access'',
      Issuer = ''noor'', Subject = ''7'', Audience = [], ExpiresAt = exp,
      NotBefore = None, IssuedAt = None, ID = []\<rparr>"

definition exampleDecode :: "string \<Rightarrow> string \<Rightarrow> ValidationError + SigningMethod \<times> MyCustomClaims" where
  "exampleDecode h c =
     (if h = ''hs'' then Inr (SigningMethodHMAC ''HS256'', exampleClaims c (Some 2000))
      else if h = ''old'' then Inr (SigningMethodHMAC ''HS256'', exampleClaims c (Some 500))
      else if h = ''rs'' then Inr (SigningMethodOther ''RS256'', exampleClaims c (Some 2000))
      else Inl (ValidationErrorMalformed ''illegal base64 data''))"

definition exampleResponse :: "string option \<Rightarrow> Response" where
  "exampleResponse e =
     \<lparr>StatusCode = 200, RespHeader = [(''Content-Type'', [''application/json''])],
      RespBody = \<lparr>Content = ''{id:42}'', ReadErr = e\<rparr>\<rparr>"

definition exampleEnv :: env where
  "exampleEnv =
     \<lparr>canonicalKey = (\<lambda>k. k), decodeSegments = exampleDecode,
      verifySignature = (\<lambda>m signed sg key. sg = key), now = 1000,
      newRequestError = (\<lambda>m u. None), clientDo = (\<lambda>req. Inr (exampleResponse None))\<rparr>"

definition exampleGlobals :: globals where
  "exampleGlobals = \<lparr>jwtSecret = ''k'', targetDomain = ''https://ors.example''\<rparr>"

definition freshWriter :: ResponseWriter where
  "freshWriter =
     \<lparr>header = [], wroteHeader = False, status = 0, sentHeader = [], body = [], room = None\<rparr>"

definition freshWorld :: world where
  "freshWorld = \<lparr>rw = freshWriter, dispatched = [], diagnostics = [], closed = 0\<rparr>"

definition exampleRequest :: "Header \<Rightarrow> Request" where
  "exampleRequest h =
     \<lparr>Method = ''GET'', URL = \<lparr>Path = ''/orders/42'', RawQuery = ''x=1''\<rparr>, Header = h, Body = []\<rparr>"

definition bearerRequest :: "string \<Rightarrow> Request" where
  "bearerRequest t = exampleRequest [(''Authorization'', [''Bearer '' @ t])]"

text \<open>The same world with an upstream whose body breaks off after seven bytes.\<close>

definition failingEnv :: env where
  "failingEnv = exampleEnv\<lparr>clientDo := (\<lambda>req. Inr (exampleResponse (Some ''unexpected EOF'')))\<rparr>"



definition plainSprintf :: "string \<Rightarrow> string list \<Rightarrow> string" where
  "plainSprintf f args = f @ concat args"

definition burstProcess :: process where
  "burstProcess = startedProcess\<lparr>logger := (logger startedProcess)
     \<lparr>warnChan := \<lparr>cap = 100, buf = replicate 100 ''slow upstream''\<rparr>\<rparr>\<rparr>"

lemmas example_defs =
  exampleClaims_def exampleDecode_def exampleResponse_def exampleEnv_def exampleGlobals_def
  freshWriter_def freshWorld_def exampleRequest_def

section \<open>Properties of the gate\<close>

lemma http_Error_status:
  "\<not> wroteHeader w \<Longrightarrow> status (http_Error ck w msg code) = code"
  by (simp add: http_Error_def WriteHeader_def Write_def Let_def split: option.splits)

lemma http_Error_body:
  "room w = None \<Longrightarrow> body (http_Error ck w msg code) = body w @ msg @ [CHR 0x0A]"
  by (simp add: http_Error_def WriteHeader_def Write_def Let_def)

lemma In_set: "In x xs = (x \<in> set xs)"
  by (induction xs) auto

lemma ParseWithClaims_Valid: "ParseWithClaims E s kf = Inr t \<Longrightarrow> Valid t"
  by (auto simp: ParseWithClaims_def Let_def split: list.splits sum.splits if_splits prod.splits)

lemma refusedToken_parse:
  "refusedToken E G s \<Longrightarrow> \<exists>e. ParseWithClaims E s (keyFunc G) = Inl e"
  by (auto simp: refusedToken_def ParseWithClaims_def keyFunc_def claimsValid_def Let_def
      split: list.splits sum.splits prod.splits SigningMethod.splits option.splits)

lemma validateJWT_authorized:
  "authorized E G r \<Longrightarrow> validateJWT E G next st r = next st r"
  by (auto simp: authorized_def validateJWT_def Let_def split: sum.splits)

lemma validateJWT_not_authorized:
  "\<not> authorized E G r \<Longrightarrow>
     dispatched (validateJWT E G next st r) = dispatched st \<and>
     diagnostics (validateJWT E G next st r) = diagnostics st \<and>
     closed (validateJWT E G next st r) = closed st"
  by (auto simp: authorized_def validateJWT_def Let_def split: sum.splits)

lemma bearerRequest_header:
  "Header_Get (canonicalKey exampleEnv) (Header (bearerRequest t)) ''Authorization'' = ''Bearer '' @ t"
  by (simp add: Header_Get_def Header_Values_def exampleEnv_def exampleRequest_def bearerRequest_def)

text \<open>
  C3. A request whose \<^verbatim>\<open>Authorization\<close> header is absent or empty (\<^verbatim>\<open>Header.Get\<close>
  gives the empty string in both cases) is answered by
  \<^verbatim>\<open>http.Error(w, "Missing token", 401)\<close> and by nothing else: the result does not
  depend on the wrapped handler, no request reaches the upstream and no call is
  made on the logger. On a response writer not yet written to, the status is 401
  and the body is the message followed by the newline \<^verbatim>\<open>http.Error\<close> adds.
\<close>

theorem missing_token_unauthorized:
  assumes "Header_Get (canonicalKey E) (Header r) ''Authorization'' = []"
  shows "validateJWT E G next st r =
           st\<lparr>rw := http_Error (canonicalKey E) (rw st) ''Missing token'' StatusUnauthorized\<rparr>
         \<and> dispatched (validateJWT E G next st r) = dispatched st
         \<and> diagnostics (validateJWT E G next st r) = diagnostics st
         \<and> (\<not> wroteHeader (rw st) \<longrightarrow> status (rw (validateJWT E G next st r)) = 401)
         \<and> (room (rw st) = None \<longrightarrow>
              body (rw (validateJWT E G next st r)) = body (rw st) @ ''Missing token'' @ [CHR 0x0A])"
proof -
  have res: "validateJWT E G next st r =
      st\<lparr>rw := http_Error (canonicalKey E) (rw st) ''Missing token'' StatusUnauthorized\<rparr>"
    using assms by (simp add: validateJWT_def)
  show ?thesis
    unfolding res by (simp add: http_Error_status http_Error_body StatusUnauthorized_def)
qed

theorem missing_token_unauthorized_witness:
  "Header_Get (canonicalKey exampleEnv) (Header (exampleRequest [])) ''Authorization'' = []
   \<and> Header_Get (canonicalKey exampleEnv)
        (Header (exampleRequest [(''Authorization'', [[]])])) ''Authorization'' = []
   \<and> \<not> wroteHeader (rw freshWorld) \<and> room (rw freshWorld) = None
   \<and> status (rw (serve exampleEnv exampleGlobals freshWorld (exampleRequest []))) = 401
   \<and> body (rw (serve exampleEnv exampleGlobals freshWorld (exampleRequest [])))
       = ''Missing token'' @ [CHR 0x0A]
   \<and> dispatched (serve exampleEnv exampleGlobals freshWorld (exampleRequest [])) = []
   \<and> status (rw (serve exampleEnv exampleGlobals freshWorld
                    (exampleRequest [(''Authorization'', [[]])]))) = 401"
proof -
  have a: "Header_Get (canonicalKey exampleEnv) (Header (exampleRequest [])) ''Authorization'' = []"
    by (simp add: Header_Get_def Header_Values_def example_defs)
  have b: "Header_Get (canonicalKey exampleEnv)
        (Header (exampleRequest [(''Authorization'', [[]])])) ''Authorization'' = []"
    by (simp add: Header_Get_def Header_Values_def example_defs)
  have f: "\<not> wroteHeader (rw freshWorld)" "room (rw freshWorld) = None"
           "body (rw freshWorld) = []" "dispatched freshWorld = []"
    by (simp_all add: example_defs)
  note ta = missing_token_unauthorized
    [OF a, of exampleGlobals "proxyHandler exampleEnv exampleGlobals" freshWorld]
  note tb = missing_token_unauthorized
    [OF b, of exampleGlobals "proxyHandler exampleEnv exampleGlobals" freshWorld]
  have 1: "status (rw (serve exampleEnv exampleGlobals freshWorld (exampleRequest []))) = 401"
    unfolding serve_def using ta f(1) by blast
  have 2: "body (rw (serve exampleEnv exampleGlobals freshWorld (exampleRequest [])))
       = ''Missing token'' @ [CHR 0x0A]"
    unfolding serve_def using ta f(2,3) by auto
  have 3: "dispatched (serve exampleEnv exampleGlobals freshWorld (exampleRequest [])) = []"
    unfolding serve_def using ta f(4) by auto
  have 4: "status (rw (serve exampleEnv exampleGlobals freshWorld
                    (exampleRequest [(''Authorization'', [[]])]))) = 401"
    unfolding serve_def using tb f(1) by blast
  show ?thesis using a b f(1,2) 1 2 3 4 by blast
qed

text \<open>
  C10. The emptiness test is made on the raw header, before the prefix is
  stripped. A header that is exactly \<^verbatim>\<open>"Bearer "\<close> is therefore not a missing
  token: what is left after the prefix is the empty string, which the parser
  refuses (it has one segment, not three), and the answer is
  \<^verbatim>\<open>http.Error(w, "Invalid token", 401)\<close>, with the wrapped handler not called.
\<close>

theorem bearer_prefix_only_invalid_token:
  assumes "Header_Get (canonicalKey E) (Header r) ''Authorization'' = ''Bearer ''"
  shows "TrimPrefix (Header_Get (canonicalKey E) (Header r) ''Authorization'') ''Bearer '' = []
         \<and> validateJWT E G next st r =
             st\<lparr>rw := http_Error (canonicalKey E) (rw st) ''Invalid token'' StatusUnauthorized\<rparr>
         \<and> (\<not> wroteHeader (rw st) \<longrightarrow> status (rw (validateJWT E G next st r)) = 401)
         \<and> (room (rw st) = None \<longrightarrow>
              body (rw (validateJWT E G next st r)) = body (rw st) @ ''Invalid token'' @ [CHR 0x0A])"
proof -
  have res: "validateJWT E G next st r =
      st\<lparr>rw := http_Error (canonicalKey E) (rw st) ''Invalid token'' StatusUnauthorized\<rparr>"
    using assms by (simp add: validateJWT_def TrimPrefix_def ParseWithClaims_def)
  have trim: "TrimPrefix (Header_Get (canonicalKey E) (Header r) ''Authorization'') ''Bearer '' = []"
    using assms by (simp add: TrimPrefix_def)
  show ?thesis
    unfolding res using trim
    by (simp add: http_Error_status http_Error_body StatusUnauthorized_def)
qed

theorem bearer_prefix_only_invalid_token_witness:
  "Header_Get (canonicalKey exampleEnv)
      (Header (exampleRequest [(''Authorization'', [''Bearer ''])])) ''Authorization'' = ''Bearer ''
   \<and> \<not> wroteHeader (rw freshWorld) \<and> room (rw freshWorld) = None
   \<and> status (rw (serve exampleEnv exampleGlobals freshWorld
                    (exampleRequest [(''Authorization'', [''Bearer ''])]))) = 401
   \<and> body (rw (serve exampleEnv exampleGlobals freshWorld
                    (exampleRequest [(''Authorization'', [''Bearer ''])])))
       = ''Invalid token'' @ [CHR 0x0A]"
proof -
  have a: "Header_Get (canonicalKey exampleEnv)
      (Header (exampleRequest [(''Authorization'', [''Bearer ''])])) ''Authorization'' = ''Bearer ''"
    by (simp add: Header_Get_def Header_Values_def example_defs)
  have f: "\<not> wroteHeader (rw freshWorld)" "room (rw freshWorld) = None"
           "body (rw freshWorld) = []"
    by (simp_all add: example_defs)
  note t = bearer_prefix_only_invalid_token
    [OF a, of exampleGlobals "proxyHandler exampleEnv exampleGlobals" freshWorld]
  have 1: "status (rw (serve exampleEnv exampleGlobals freshWorld
                    (exampleRequest [(''Authorization'', [''Bearer ''])]))) = 401"
    unfolding serve_def using t f(1) by blast
  have 2: "body (rw (serve exampleEnv exampleGlobals freshWorld
                    (exampleRequest [(''Authorization'', [''Bearer ''])])))
       = ''Invalid token'' @ [CHR 0x0A]"
    unfolding serve_def using t f(2,3) by auto
  show ?thesis using a f(1,2) 1 2 by blast
qed

text \<open>
  C4. A request that carries a token which is structurally malformed, or names a
  signing method outside the HMAC family, or is expired, or whose signature does
  not verify under the configured secret, is answered by
  \<^verbatim>\<open>http.Error(w, "Invalid token", 401)\<close>; the wrapped handler is not called and
  nothing reaches the upstream.
\<close>

theorem refused_token_unauthorized:
  assumes "Header_Get (canonicalKey E) (Header r) ''Authorization'' \<noteq> []"
    and "refusedToken E G
           (TrimPrefix (Header_Get (canonicalKey E) (Header r) ''Authorization'') ''Bearer '')"
  shows "validateJWT E G next st r =
           st\<lparr>rw := http_Error (canonicalKey E) (rw st) ''Invalid token'' StatusUnauthorized\<rparr>
         \<and> dispatched (validateJWT E G next st r) = dispatched st
         \<and> (\<not> wroteHeader (rw st) \<longrightarrow> status (rw (validateJWT E G next st r)) = 401)"
proof -
  obtain e where "ParseWithClaims E
           (TrimPrefix (Header_Get (canonicalKey E) (Header r) ''Authorization'') ''Bearer '')
           (keyFunc G) = Inl e"
    using refusedToken_parse [OF assms(2)] by blast
  then have res: "validateJWT E G next st r =
           st\<lparr>rw := http_Error (canonicalKey E) (rw st) ''Invalid token'' StatusUnauthorized\<rparr>"
    using assms(1) by (simp add: validateJWT_def)
  show ?thesis
    unfolding res by (simp add: http_Error_status StatusUnauthorized_def)
qed

text \<open>
  Four tokens in the small world: signed with another key, an asymmetric
  method, expired, and not three segments.
\<close>

theorem refused_token_unauthorized_witness:
  "refusedToken exampleEnv exampleGlobals ''hs.ADMIN.wrong''
   \<and> refusedToken exampleEnv exampleGlobals ''rs.ADMIN.k''
   \<and> refusedToken exampleEnv exampleGlobals ''old.ADMIN.k''
   \<and> refusedToken exampleEnv exampleGlobals ''garbage''
   \<and> \<not> wroteHeader (rw freshWorld)
   \<and> status (rw (serve exampleEnv exampleGlobals freshWorld (bearerRequest ''hs.ADMIN.wrong''))) = 401
   \<and> status (rw (serve exampleEnv exampleGlobals freshWorld (bearerRequest ''rs.ADMIN.k''))) = 401
   \<and> status (rw (serve exampleEnv exampleGlobals freshWorld (bearerRequest ''old.ADMIN.k''))) = 401
   \<and> status (rw (serve exampleEnv exampleGlobals freshWorld (bearerRequest ''garbage''))) = 401
   \<and> dispatched (serve exampleEnv exampleGlobals freshWorld (bearerRequest ''hs.ADMIN.wrong'')) = []
   \<and> dispatched (serve exampleEnv exampleGlobals freshWorld (bearerRequest ''rs.ADMIN.k'')) = []
   \<and> dispatched (serve exampleEnv exampleGlobals freshWorld (bearerRequest ''old.ADMIN.k'')) = []
   \<and> dispatched (serve exampleEnv exampleGlobals freshWorld (bearerRequest ''garbage'')) = []"
proof -
  have f: "\<not> wroteHeader (rw freshWorld)" "dispatched freshWorld = []"
    by (simp_all add: freshWorld_def freshWriter_def)
  have one: "refusedToken exampleEnv exampleGlobals t
      \<and> status (rw (serve exampleEnv exampleGlobals freshWorld (bearerRequest t))) = 401
      \<and> dispatched (serve exampleEnv exampleGlobals freshWorld (bearerRequest t)) = []"
    if t: "t \<in> {''hs.ADMIN.wrong'', ''rs.ADMIN.k'', ''old.ADMIN.k'', ''garbage''}" for t
  proof -
    have a: "Header_Get (canonicalKey exampleEnv) (Header (bearerRequest t)) ''Authorization'' \<noteq> []"
      unfolding bearerRequest_header by simp
    have b0: "refusedToken exampleEnv exampleGlobals t"
      using t
      by (auto simp: refusedToken_def exampleEnv_def exampleDecode_def exampleClaims_def
          exampleGlobals_def)
    have b: "refusedToken exampleEnv exampleGlobals
          (TrimPrefix (Header_Get (canonicalKey exampleEnv) (Header (bearerRequest t))
             ''Authorization'') ''Bearer '')"
      unfolding bearerRequest_header using b0 by (simp add: TrimPrefix_def)
    note th = refused_token_unauthorized
      [OF a b, of "proxyHandler exampleEnv exampleGlobals" freshWorld]
    have 1: "status (rw (serve exampleEnv exampleGlobals freshWorld (bearerRequest t))) = 401"
      unfolding serve_def using th f(1) by blast
    have 2: "dispatched (serve exampleEnv exampleGlobals freshWorld (bearerRequest t)) = []"
      unfolding serve_def using th f(2) by auto
    show ?thesis using b0 1 2 by blast
  qed
  show ?thesis
    using one [of "''hs.ADMIN.wrong''"] one [of "''rs.ADMIN.k''"] one [of "''old.ADMIN.k''"]
      one [of "''garbage''"] f(1)
    by simp
qed

text \<open>
  C5. A request whose token the parser accepts and whose role is none of ADMIN,
  USER, COURIER, MANAGER, CLIENT, VENDOR is answered by
  \<^verbatim>\<open>http.Error(w, "Forbidden", 403)\<close>; the wrapped handler is not called and
  nothing reaches the upstream. \<^verbatim>\<open>In\<close> compares with \<^verbatim>\<open>==\<close>, so a role is allowed
  exactly when it is equal to one of the six strings.
\<close>

theorem role_outside_allow_set_forbidden:
  assumes "Header_Get (canonicalKey E) (Header r) ''Authorization'' \<noteq> []"
    and "ParseWithClaims E
           (TrimPrefix (Header_Get (canonicalKey E) (Header r) ''Authorization'') ''Bearer '')
           (keyFunc G) = Inr token"
    and "Role (Claims token) \<notin> {''ADMIN'', ''USER'', ''COURIER'', ''MANAGER'', ''CLIENT'', ''VENDOR''}"
  shows "validateJWT E G next st r =
           st\<lparr>rw := http_Error (canonicalKey E) (rw st) ''Forbidden'' StatusForbidden\<rparr>
         \<and> dispatched (validateJWT E G next st r) = dispatched st
         \<and> (\<not> wroteHeader (rw st) \<longrightarrow> status (rw (validateJWT E G next st r)) = 403)
         \<and> (\<forall>role. In role allowedRoles =
               (role \<in> {''ADMIN'', ''USER'', ''COURIER'', ''MANAGER'', ''CLIENT'', ''VENDOR''}))"
proof -
  have mem: "\<forall>role. In role allowedRoles =
               (role \<in> {''ADMIN'', ''USER'', ''COURIER'', ''MANAGER'', ''CLIENT'', ''VENDOR''})"
    by (simp add: In_set allowedRoles_def)
  have v: "Valid token" using assms(2) by (rule ParseWithClaims_Valid)
  have notin: "\<not> In (Role (Claims token)) allowedRoles"
    using assms(3) mem by blast
  have res: "validateJWT E G next st r =
           st\<lparr>rw := http_Error (canonicalKey E) (rw st) ''Forbidden'' StatusForbidden\<rparr>"
    using assms(1,2) v notin by (simp add: validateJWT_def)
  show ?thesis
    unfolding res using mem by (simp add: http_Error_status StatusForbidden_def)
qed

theorem role_outside_allow_set_forbidden_witness:
  "Header_Get (canonicalKey exampleEnv) (Header (bearerRequest ''hs.admin.k'')) ''Authorization'' \<noteq> []
   \<and> ParseWithClaims exampleEnv
        (TrimPrefix (Header_Get (canonicalKey exampleEnv) (Header (bearerRequest ''hs.admin.k''))
           ''Authorization'') ''Bearer '')
        (keyFunc exampleGlobals)
      = Inr \<lparr>Raw = ''hs.admin.k'', TokenMethod = SigningMethodHMAC ''HS256'',
             Claims = exampleClaims ''admin'' (Some 2000), Signature = ''k'', Valid = True\<rparr>
   \<and> ''admin'' \<notin> {''ADMIN'', ''USER'', ''COURIER'', ''MANAGER'', ''CLIENT'', ''VENDOR''}
   \<and> \<not> wroteHeader (rw freshWorld)
   \<and> status (rw (serve exampleEnv exampleGlobals freshWorld (bearerRequest ''hs.admin.k''))) = 403
   \<and> dispatched (serve exampleEnv exampleGlobals freshWorld (bearerRequest ''hs.admin.k'')) = []"
proof -
  let ?r = "bearerRequest ''hs.admin.k''"
  let ?t = "\<lparr>Raw = ''hs.admin.k'', TokenMethod = SigningMethodHMAC ''HS256'',
             Claims = exampleClaims ''admin'' (Some 2000), Signature = ''k'', Valid = True\<rparr>"
  have a: "Header_Get (canonicalKey exampleEnv) (Header ?r) ''Authorization'' \<noteq> []"
    unfolding bearerRequest_header by simp
  have b: "ParseWithClaims exampleEnv
        (TrimPrefix (Header_Get (canonicalKey exampleEnv) (Header ?r) ''Authorization'') ''Bearer '')
        (keyFunc exampleGlobals) = Inr ?t"
    unfolding bearerRequest_header
    by (simp add: TrimPrefix_def ParseWithClaims_def keyFunc_def claimsValid_def
        exampleEnv_def exampleDecode_def exampleClaims_def exampleGlobals_def)
  have c: "Role (Claims ?t) \<notin> {''ADMIN'', ''USER'', ''COURIER'', ''MANAGER'', ''CLIENT'', ''VENDOR''}"
    by (simp add: exampleClaims_def)
  have c': "''admin'' \<notin> {''ADMIN'', ''USER'', ''COURIER'', ''MANAGER'', ''CLIENT'', ''VENDOR''}"
    by simp
  have f: "\<not> wroteHeader (rw freshWorld)" "dispatched freshWorld = []"
    by (simp_all add: freshWorld_def freshWriter_def)
  note t = role_outside_allow_set_forbidden
    [OF a b c, of "proxyHandler exampleEnv exampleGlobals" freshWorld]
  have 1: "status (rw (serve exampleEnv exampleGlobals freshWorld ?r)) = 403"
    unfolding serve_def using t f(1) by blast
  have 2: "dispatched (serve exampleEnv exampleGlobals freshWorld ?r) = []"
    unfolding serve_def using t f(2) by auto
  show ?thesis using a b c' f(1) 1 2 by blast
qed

section \<open>Properties of the forwarding handler\<close>







lemma io_Copy_wroteHeader:
  "wroteHeader w \<Longrightarrow> io_Copy w src = (w', e) \<Longrightarrow>
     wroteHeader w' \<and> status w' = status w \<and> sentHeader w' = sentHeader w"
  by (auto simp: io_Copy_def Write_def Let_def split: option.splits if_splits prod.splits)

lemma http_Error_wroteHeader:
  "wroteHeader w \<Longrightarrow> status (http_Error ck w msg code) = status w
     \<and> sentHeader (http_Error ck w msg code) = sentHeader w
     \<and> body (http_Error ck w msg code) =
         body w @ (case room w of None \<Rightarrow> msg @ [CHR 0x0A] | Some n \<Rightarrow> take n (msg @ [CHR 0x0A]))"
  by (auto simp: http_Error_def WriteHeader_def Write_def Let_def split: option.splits)

lemma proxyHandler_dispatched:
  "NewRequest E (Method r) (targetDomain G @ Path (URL r)) (Body r) = Inr req0 \<Longrightarrow>
   dispatched (proxyHandler E G st r) =
     dispatched st @ [req0\<lparr>OutHeader := copyHeaders (canonicalKey E) (Header r) (OutHeader req0)\<rparr>]"
  by (auto simp: proxyHandler_def Let_def split: sum.splits prod.splits option.splits)

lemma proxyHandler_response:
  assumes "NewRequest E (Method r) (targetDomain G @ Path (URL r)) (Body r) = Inr req0"
    and "clientDo E (req0\<lparr>OutHeader := copyHeaders (canonicalKey E) (Header r) (OutHeader req0)\<rparr>)
           = Inr resp"
    and "\<not> wroteHeader (rw st)"
  shows "status (rw (proxyHandler E G st r)) = StatusCode resp
         \<and> sentHeader (rw (proxyHandler E G st r)) =
             copyHeaders (canonicalKey E) (RespHeader resp) (header (rw st))"
proof -
  let ?w2 = "WriteHeader (StatusCode resp)
            ((rw st)\<lparr>header := copyHeaders (canonicalKey E) (RespHeader resp) (header (rw st))\<rparr>)"
  have w2: "wroteHeader ?w2" "status ?w2 = StatusCode resp"
    "sentHeader ?w2 = copyHeaders (canonicalKey E) (RespHeader resp) (header (rw st))"
    using assms(3) by (simp_all add: WriteHeader_def)
  obtain w3 e where c: "io_Copy ?w2 (RespBody resp) = (w3, e)"
    by (cases "io_Copy ?w2 (RespBody resp)")
  have w3: "wroteHeader w3" "status w3 = StatusCode resp"
    "sentHeader w3 = copyHeaders (canonicalKey E) (RespHeader resp) (header (rw st))"
    using io_Copy_wroteHeader [OF w2(1) c] w2(2,3) by simp_all
  show ?thesis
  proof (cases e)
    case None
    then show ?thesis
      using assms(1,2) c w3 by (simp add: proxyHandler_def Let_def)
  next
    case (Some err)
    then show ?thesis
      using assms(1,2) c w3 http_Error_wroteHeader [OF w3(1)]
      by (simp add: proxyHandler_def Let_def)
  qed
qed

lemma proxyHandler_ignores_query:
  "proxyHandler E G st (r\<lparr>URL := (URL r)\<lparr>RawQuery := q\<rparr>\<rparr>) = proxyHandler E G st r"
  by (simp add: proxyHandler_def split: sum.split)

lemma authorized_admin: "authorized exampleEnv exampleGlobals (bearerRequest ''hs.ADMIN.k'')"
  unfolding authorized_def bearerRequest_header
  by (simp add: TrimPrefix_def ParseWithClaims_def keyFunc_def claimsValid_def allowedRoles_def
      exampleEnv_def exampleDecode_def exampleClaims_def exampleGlobals_def)


text \<open>
  C1. The specification wants the outbound URL to be the origin followed by the
  full inbound path, query included. \<^verbatim>\<open>proxyHandler\<close> builds it from
  \<^verbatim>\<open>r.URL.Path\<close> alone and never reads \<^verbatim>\<open>r.URL.RawQuery\<close>: for the request to
  \<^verbatim>\<open>/orders/42?x=1\<close>, authorized with an ADMIN token, the one request
  that reaches the upstream goes to \<^verbatim>\<open>https://ors.example/orders/42\<close>, which is
  not the origin followed by \<^verbatim>\<open>/orders/42?x=1\<close>.
\<close>

theorem forwarded_url_drops_query:
  "authorized exampleEnv exampleGlobals (bearerRequest ''hs.ADMIN.k'')
   \<and> fullPath (URL (bearerRequest ''hs.ADMIN.k'')) = ''/orders/42?x=1''
   \<and> map OutURL (dispatched (serve exampleEnv exampleGlobals freshWorld (bearerRequest ''hs.ADMIN.k'')))
       = [''https://ors.example/orders/42'']
   \<and> map OutURL (dispatched (serve exampleEnv exampleGlobals freshWorld (bearerRequest ''hs.ADMIN.k'')))
       \<noteq> [targetDomain exampleGlobals @ fullPath (URL (bearerRequest ''hs.ADMIN.k''))]"
proof -
  let ?r = "bearerRequest ''hs.ADMIN.k''"
  have s: "serve exampleEnv exampleGlobals freshWorld ?r = proxyHandler exampleEnv exampleGlobals freshWorld ?r"
    unfolding serve_def using authorized_admin by (rule validateJWT_authorized)
  have new: "NewRequest exampleEnv (Method ?r) (targetDomain exampleGlobals @ Path (URL ?r)) (Body ?r)
      = Inr \<lparr>OutMethod = ''GET'', OutURL = ''https://ors.example/orders/42'', OutHeader = [],
             OutBody = []\<rparr>"
    by (simp add: NewRequest_def exampleEnv_def exampleGlobals_def bearerRequest_def exampleRequest_def)
  have d: "map OutURL (dispatched (serve exampleEnv exampleGlobals freshWorld ?r))
       = [''https://ors.example/orders/42'']"
    unfolding s proxyHandler_dispatched [OF new] by (simp add: freshWorld_def)
  have f: "fullPath (URL ?r) = ''/orders/42?x=1''"
    by (simp add: fullPath_def bearerRequest_def exampleRequest_def)
  show ?thesis
    unfolding d f using authorized_admin by (simp add: exampleGlobals_def)
qed

text \<open>
  What \<^verbatim>\<open>proxyHandler\<close> does when the copy of the body fails after the status is
  written: it calls \<^verbatim>\<open>http.Error(w, "Error proxying response", 500)\<close> and then
  submits one Error diagnostic. The second \<^verbatim>\<open>WriteHeader\<close> is ignored, so the
  status stays the upstream's; the message with its newline goes to the body as
  far as the connection still accepts bytes.
\<close>

lemma copy_failure_response:
  assumes "NewRequest E (Method r) (targetDomain G @ Path (URL r)) (Body r) = Inr req0"
    and "clientDo E (req0\<lparr>OutHeader := copyHeaders (canonicalKey E) (Header r) (OutHeader req0)\<rparr>)
           = Inr resp"
    and "\<not> wroteHeader (rw st)"
    and "io_Copy (WriteHeader (StatusCode resp)
            ((rw st)\<lparr>header := copyHeaders (canonicalKey E) (RespHeader resp) (header (rw st))\<rparr>))
          (RespBody resp) = (w3, Some err)"
  shows "rw (proxyHandler E G st r) =
           http_Error (canonicalKey E) w3 ''Error proxying response'' StatusInternalServerError
         \<and> status (rw (proxyHandler E G st r)) = StatusCode resp
         \<and> body (rw (proxyHandler E G st r)) =
             body w3 @ (case room w3 of
                          None \<Rightarrow> ''Error proxying response'' @ [CHR 0x0A]
                        | Some n \<Rightarrow> take n (''Error proxying response'' @ [CHR 0x0A]))
         \<and> diagnostics (proxyHandler E G st r) =
             diagnostics st @ [LogErrorF ''Error proxying response: %v'' [err]]"
proof -
  let ?w2 = "WriteHeader (StatusCode resp)
            ((rw st)\<lparr>header := copyHeaders (canonicalKey E) (RespHeader resp) (header (rw st))\<rparr>)"
  have w2: "wroteHeader ?w2" "status ?w2 = StatusCode resp"
    using assms(3) by (simp_all add: WriteHeader_def)
  have w3: "wroteHeader w3" "status w3 = StatusCode resp"
    using io_Copy_wroteHeader [OF w2(1) assms(4)] w2(2) by simp_all
  have res: "proxyHandler E G st r =
      st\<lparr>dispatched := dispatched st @
            [req0\<lparr>OutHeader := copyHeaders (canonicalKey E) (Header r) (OutHeader req0)\<rparr>],
         rw := http_Error (canonicalKey E) w3 ''Error proxying response'' StatusInternalServerError,
         diagnostics := diagnostics st @ [LogErrorF ''Error proxying response: %v'' [err]],
         closed := Suc (closed st)\<rparr>"
    using assms(1,2,4) by (simp add: proxyHandler_def Let_def)
  show ?thesis
    unfolding res using http_Error_wroteHeader [OF w3(1)] w3(2) by simp
qed

text \<open>
  When the copy fails because the client's connection no longer takes bytes (a
  disconnect, a write error), the connection takes nothing of the message
  either: status, sent header and body stay as the copy left them, and the one
  diagnostic is all that happens.
\<close>

lemma Write_failure_room:
  "Write bs w = (w', Some e) \<Longrightarrow> room w' = Some 0"
  by (auto simp: Write_def Let_def split: option.splits if_splits)

lemma io_Copy_write_failure:
  "Write (Content src) w = (w', Some e) \<Longrightarrow> io_Copy w src = (w', Some e)"
  by (simp add: io_Copy_def)

lemma copy_write_failure_only_diagnostic:
  assumes "NewRequest E (Method r) (targetDomain G @ Path (URL r)) (Body r) = Inr req0"
    and "clientDo E (req0\<lparr>OutHeader := copyHeaders (canonicalKey E) (Header r) (OutHeader req0)\<rparr>)
           = Inr resp"
    and "\<not> wroteHeader (rw st)"
    and "Write (Content (RespBody resp)) (WriteHeader (StatusCode resp)
            ((rw st)\<lparr>header := copyHeaders (canonicalKey E) (RespHeader resp) (header (rw st))\<rparr>))
          = (w3, Some err)"
  shows "status (rw (proxyHandler E G st r)) = StatusCode resp
         \<and> sentHeader (rw (proxyHandler E G st r)) =
             copyHeaders (canonicalKey E) (RespHeader resp) (header (rw st))
         \<and> body (rw (proxyHandler E G st r)) = body w3
         \<and> diagnostics (proxyHandler E G st r) =
             diagnostics st @ [LogErrorF ''Error proxying response: %v'' [err]]"
proof -
  note c = io_Copy_write_failure [OF assms(4)]
  note t = copy_failure_response [OF assms(1,2,3) c]
  have r0: "room w3 = Some 0" using assms(4) by (rule Write_failure_room)
  have "body (rw (proxyHandler E G st r)) = body w3"
    using t [THEN conjunct2, THEN conjunct2, THEN conjunct1] r0 by simp
  then show ?thesis
    using t [THEN conjunct2, THEN conjunct1] t [THEN conjunct2, THEN conjunct2, THEN conjunct2]
      proxyHandler_response [OF assms(1,2,3)]
    by simp
qed

text \<open>
  C2. The specification wants a failure of the body copy, once the status is
  written, to lead to an Error diagnostic and to nothing more for the client.
  \<^verbatim>\<open>proxyHandler\<close> repeats on this path the \<^verbatim>\<open>http.Error\<close> of its two earlier error
  paths, where the response had not yet begun. When the client's connection is
  what failed, nothing of it arrives (\<open>copy_write_failure_only_diagnostic\<close>). When
  the upstream's body breaks off and the client is still there, it does: for the
  upstream whose body ends after \<^verbatim>\<open>{id:42}\<close> with a read error, the copy returns
  that error with the seven bytes written, and the response, still under status
  200, goes on with the text \<^verbatim>\<open>Error proxying response\<close> and a newline; the
  header fields of \<^verbatim>\<open>http.Error\<close> have also replaced the content type in the
  header map.
\<close>

theorem copy_read_failure_error_text:
  "io_Copy (WriteHeader 200 (freshWriter\<lparr>header := [(''Content-Type'', [''application/json''])]\<rparr>))
      (RespBody (exampleResponse (Some ''unexpected EOF'')))
     = (\<lparr>header = [(''Content-Type'', [''application/json''])], wroteHeader = True, status = 200,
         sentHeader = [(''Content-Type'', [''application/json''])], body = ''{id:42}'',
         room = None\<rparr>, Some ''unexpected EOF'')
   \<and> body (rw (serve failingEnv exampleGlobals freshWorld (bearerRequest ''hs.ADMIN.k'')))
       = ''{id:42}Error proxying response'' @ [CHR 0x0A]
   \<and> status (rw (serve failingEnv exampleGlobals freshWorld (bearerRequest ''hs.ADMIN.k''))) = 200
   \<and> header (rw (serve failingEnv exampleGlobals freshWorld (bearerRequest ''hs.ADMIN.k'')))
       \<noteq> [(''Content-Type'', [''application/json''])]"
proof -
  let ?r = "bearerRequest ''hs.ADMIN.k''"
  have a: "authorized failingEnv exampleGlobals ?r"
    by (simp add: authorized_def Header_Get_def Header_Values_def TrimPrefix_def
        ParseWithClaims_def keyFunc_def claimsValid_def allowedRoles_def failingEnv_def
        exampleEnv_def exampleDecode_def exampleClaims_def exampleGlobals_def
        bearerRequest_def exampleRequest_def)
  have s: "serve failingEnv exampleGlobals freshWorld ?r = proxyHandler failingEnv exampleGlobals freshWorld ?r"
    unfolding serve_def using a by (rule validateJWT_authorized)
  have c: "io_Copy (WriteHeader 200 (freshWriter\<lparr>header := [(''Content-Type'', [''application/json''])]\<rparr>))
      (RespBody (exampleResponse (Some ''unexpected EOF'')))
     = (\<lparr>header = [(''Content-Type'', [''application/json''])], wroteHeader = True, status = 200,
         sentHeader = [(''Content-Type'', [''application/json''])], body = ''{id:42}'',
         room = None\<rparr>, Some ''unexpected EOF'')"
    by (simp add: io_Copy_def Write_def WriteHeader_def freshWriter_def exampleResponse_def)
  have p: "rw (proxyHandler failingEnv exampleGlobals freshWorld ?r) =
      \<lparr>header = [(''Content-Type'', [''text/plain; charset=utf-8'']),
                 (''X-Content-Type-Options'', [''nosniff''])],
       wroteHeader = True, status = 200,
       sentHeader = [(''Content-Type'', [''application/json''])],
       body = ''{id:42}Error proxying response'' @ [CHR 0x0A], room = None\<rparr>"
    by (simp add: proxyHandler_def NewRequest_def io_Copy_def Write_def WriteHeader_def http_Error_def
        Header_Set_def Header_Add_def Header_Values_def StatusInternalServerError_def
        failingEnv_def exampleEnv_def exampleGlobals_def bearerRequest_def exampleRequest_def
        exampleResponse_def freshWorld_def freshWriter_def)
  show ?thesis
    unfolding s p using c by simp
qed



section \<open>Properties of the logger\<close>

subsection \<open>Starting the listener\<close>


lemma StartListener_done: "once (logger p) \<Longrightarrow> StartListener openError p = Inr p"
  by (simp add: StartListener_def)

lemma StartListener_times_done:
  "once (logger p) \<Longrightarrow> StartListener_times n openError p = Inr p"
  by (induction n) (simp_all add: StartListener_done)

lemma once_startedProcess: "once (logger startedProcess)"
  by (simp add: startedProcess_def)

lemma StartListener_result:
  "StartListener openError newProcess = Inr p \<Longrightarrow> p = startedProcess"
  by (auto simp: StartListener_def OpenLogFile_def newProcess_def NewLogger_def startedProcess_def
      logFiles_def split: option.splits)

lemma StartListener_times_result:
  assumes "1 \<le> n" and "StartListener_times n openError newProcess = Inr p"
  shows "p = startedProcess"
proof -
  obtain m where m: "n = Suc m" using assms(1) by (cases n) auto
  from assms(2) obtain p1 where p1: "StartListener openError newProcess = Inr p1"
    "StartListener_times m openError p1 = Inr p"
    unfolding m by (auto split: sum.splits)
  have "p1 = startedProcess" using p1(1) by (rule StartListener_result)
  with p1(2) show ?thesis
    by (simp add: StartListener_times_done once_startedProcess)
qed















subsection \<open>Executions\<close>

lemmas submit_defs = Error_def ErrorF_def ErrorStr_def Warn_def WarnF_def Info_def InfoF_def send_def

lemma submit_caps100:
  "caps100 l \<Longrightarrow>
   submit sprintf s l =
     (if queueLength s l < 100 then Proceeds (enqueued sprintf s l) else Blocks)"
  by (cases s) (simp_all add: caps100_def submit_defs)

lemma errorLines_append: "errorLines (xs @ ys) = errorLines xs @ errorLines ys"
  by (induction xs rule: errorLines.induct) simp_all

lemma ledger_refl: "ledger p [] [] [] p"
  by (simp add: ledger_def)

lemma ledger_trans:
  "ledger p es ws is p1 \<Longrightarrow> ledger p1 es' ws' is' p2 \<Longrightarrow>
   ledger p (es @ es') (ws @ ws') (is @ is') p2"
  by (simp add: ledger_def errorLines_append)

lemma produce_ledger:
  assumes "submit sprintf s (logger p) = Proceeds l"
  shows "ledger p (submittedErrors sprintf [Produce s]) (submittedWarnings sprintf [Produce s])
           (submittedInfos sprintf [Produce s]) (p\<lparr>logger := l\<rparr>)"
  using assms
  by (cases s) (auto simp: ledger_def errorLines_append submit_defs split: if_splits)

lemma listen_ledger:
  assumes "listenerStep c p = Proceeds p'"
  shows "ledger p [] [] [] p'"
proof (cases c)
  case CaseErr
  with assms show ?thesis
    by (auto simp: listenerStep_def recv_def ledger_def Let_def
        split: if_splits list.splits option.splits)
next
  case CaseWarn
  with assms show ?thesis
    by (auto simp: listenerStep_def recv_def ledger_def Let_def
        split: if_splits list.splits)
next
  case CaseInfo
  with assms show ?thesis
    by (auto simp: listenerStep_def recv_def ledger_def Let_def
        split: if_splits list.splits)
qed

lemma act_ledger:
  assumes "act sprintf a p = Proceeds p'"
  shows "ledger p (submittedErrors sprintf [a]) (submittedWarnings sprintf [a])
           (submittedInfos sprintf [a]) p'"
proof (cases a)
  case (Produce s)
  with assms obtain l where "submit sprintf s (logger p) = Proceeds l" "p' = p\<lparr>logger := l\<rparr>"
    by (auto split: step.splits)
  then show ?thesis using produce_ledger Produce by simp
next
  case (Listen c)
  with assms have "ledger p [] [] [] p'" by (simp add: listen_ledger)
  then show ?thesis using Listen by simp
qed

lemma submittedErrors_Cons:
  "submittedErrors sprintf (a # as) = submittedErrors sprintf [a] @ submittedErrors sprintf as"
proof (cases a)
  case (Produce s)
  then show ?thesis by (cases s) simp_all
next
  case (Listen c)
  then show ?thesis by simp
qed

lemma submittedWarnings_Cons:
  "submittedWarnings sprintf (a # as) = submittedWarnings sprintf [a] @ submittedWarnings sprintf as"
proof (cases a)
  case (Produce s)
  then show ?thesis by (cases s) simp_all
next
  case (Listen c)
  then show ?thesis by simp
qed

lemma submittedInfos_Cons:
  "submittedInfos sprintf (a # as) = submittedInfos sprintf [a] @ submittedInfos sprintf as"
proof (cases a)
  case (Produce s)
  then show ?thesis by (cases s) simp_all
next
  case (Listen c)
  then show ?thesis by simp
qed

lemma execute_ledger:
  "execute sprintf tr p = Proceeds p' \<Longrightarrow>
   ledger p (submittedErrors sprintf tr) (submittedWarnings sprintf tr)
     (submittedInfos sprintf tr) p'"
proof (induction tr arbitrary: p)
  case Nil
  then show ?case by (simp add: ledger_refl)
next
  case (Cons a tr)
  from Cons.prems obtain p1 where p1: "act sprintf a p = Proceeds p1"
    "execute sprintf tr p1 = Proceeds p'"
    by (auto split: step.splits)
  from ledger_trans [OF act_ledger [OF p1(1)] Cons.IH [OF p1(2)]]
  show ?case
    by (simp add: submittedErrors_Cons [of _ a tr] submittedWarnings_Cons [of _ a tr]
        submittedInfos_Cons [of _ a tr])
qed

lemma listenerStep_takes:
  assumes "listenerStep (selectCaseOf s) p = Proceeds p'"
  shows "Suc (queueLength s (logger p')) = queueLength s (logger p)"
  using assms
  by (cases s)
    (auto simp: listenerStep_def recv_def Let_def split: if_splits list.splits option.splits)

lemma execute_append:
  "execute sprintf (xs @ ys) p =
     (case execute sprintf xs p of Blocks \<Rightarrow> Blocks | Proceeds p' \<Rightarrow> execute sprintf ys p')"
  by (induction xs arbitrary: p) (simp_all split: step.splits)

lemma execute_warn_burst:
  "length (buf (warnChan (logger p))) + n \<le> cap (warnChan (logger p)) \<Longrightarrow>
   execute sprintf (replicate n (Produce (CallWarn w))) p =
     Proceeds (p\<lparr>logger := (logger p)\<lparr>warnChan := (warnChan (logger p))
                 \<lparr>buf := buf (warnChan (logger p)) @ replicate n w\<rparr>\<rparr>\<rparr>)"
proof (induction n arbitrary: p)
  case 0
  then show ?case by simp
next
  case (Suc n)
  let ?p = "p\<lparr>logger := (logger p)\<lparr>warnChan := (warnChan (logger p))
                 \<lparr>buf := buf (warnChan (logger p)) @ [w]\<rparr>\<rparr>\<rparr>"
  have a: "act sprintf (Produce (CallWarn w)) p = Proceeds ?p"
    using Suc.prems by (simp add: Warn_def send_def)
  have "length (buf (warnChan (logger ?p))) + n \<le> cap (warnChan (logger ?p))"
    using Suc.prems by simp
  from Suc.IH [OF this] a show ?case
    by (simp add: replicate_app_Cons_same)
qed

lemma startedProcess_chans:
  "errChan (logger startedProcess) = errChan NewLogger"
  "warnChan (logger startedProcess) = warnChan NewLogger"
  "infoChan (logger startedProcess) = infoChan NewLogger"
  by (simp_all add: startedProcess_def)

lemma burst_execution:
  "execute plainSprintf (replicate 100 (Produce (CallWarn ''slow upstream''))) startedProcess
     = Proceeds burstProcess"
  by (simp add: execute_warn_burst burstProcess_def startedProcess_def newProcess_def NewLogger_def
      make_chan_def)

text \<open>
  C8. \<^verbatim>\<open>Error(nil)\<close> only puts \<^verbatim>\<open>nil\<close> at the end of the error queue. When the
  listener takes a \<^verbatim>\<open>nil\<close> from the head of the queue it removes it and does
  nothing else: no line in the error log, nothing on standard output (an error
  that is not \<^verbatim>\<open>nil\<close> gives one line in each). With an empty queue, submitting
  \<^verbatim>\<open>nil\<close> and letting the listener take it gives back the process exactly as it
  was; and in every execution that begins with \<^verbatim>\<open>Error(nil)\<close>, the lines of the
  error log and the lines still to come from the queue are those of the other
  submissions alone.
\<close>

theorem nil_error_writes_nothing:
  assumes run: "0 < listeners p"
    and room: "length (buf (errChan (logger p))) < cap (errChan (logger p))"
  shows "Error None (logger p) =
           Proceeds ((logger p)\<lparr>errChan := (errChan (logger p))\<lparr>buf := buf (errChan (logger p)) @ [None]\<rparr>\<rparr>)
         \<and> (buf (errChan (logger p)) = [] \<longrightarrow>
               listenerStep CaseErr
                 (p\<lparr>logger := (logger p)\<lparr>errChan := (errChan (logger p))\<lparr>buf := [None]\<rparr>\<rparr>\<rparr>)
               = Proceeds p)
         \<and> (\<forall>q rest. 0 < listeners q \<longrightarrow> buf (errChan (logger q)) = None # rest \<longrightarrow>
               listenerStep CaseErr q =
                 Proceeds (q\<lparr>logger := (logger q)\<lparr>errChan := (errChan (logger q))\<lparr>buf := rest\<rparr>\<rparr>\<rparr>))
         \<and> (\<forall>q rest msg. 0 < listeners q \<longrightarrow> buf (errChan (logger q)) = Some msg # rest \<longrightarrow>
               listenerStep CaseErr q =
                 Proceeds (q\<lparr>logger := (logger q)\<lparr>errChan := (errChan (logger q))\<lparr>buf := rest\<rparr>\<rparr>,
                            errorsLog := errorsLog q @ [LogLine ERROR msg],
                            stdout := stdout q @ [msg]\<rparr>))
         \<and> (\<forall>tr p'. execute sprintf (Produce (CallError None) # tr) p = Proceeds p' \<longrightarrow>
               errorsLog p' @ errorLines (buf (errChan (logger p'))) =
               errorsLog p @ errorLines (buf (errChan (logger p))) @
                 errorLines (submittedErrors sprintf tr))"
proof -
  have 1: "Error None (logger p) =
           Proceeds ((logger p)\<lparr>errChan := (errChan (logger p))\<lparr>buf := buf (errChan (logger p)) @ [None]\<rparr>\<rparr>)"
    using room by (simp add: Error_def send_def)
  have 2: "buf (errChan (logger p)) = [] \<longrightarrow>
               listenerStep CaseErr
                 (p\<lparr>logger := (logger p)\<lparr>errChan := (errChan (logger p))\<lparr>buf := [None]\<rparr>\<rparr>\<rparr>)
               = Proceeds p"
    using run by (simp add: listenerStep_def recv_def)
  have 3: "\<forall>q rest. 0 < listeners q \<longrightarrow> buf (errChan (logger q)) = None # rest \<longrightarrow>
               listenerStep CaseErr q =
                 Proceeds (q\<lparr>logger := (logger q)\<lparr>errChan := (errChan (logger q))\<lparr>buf := rest\<rparr>\<rparr>\<rparr>)"
    by (simp add: listenerStep_def recv_def)
  have 4: "\<forall>q rest msg. 0 < listeners q \<longrightarrow> buf (errChan (logger q)) = Some msg # rest \<longrightarrow>
               listenerStep CaseErr q =
                 Proceeds (q\<lparr>logger := (logger q)\<lparr>errChan := (errChan (logger q))\<lparr>buf := rest\<rparr>\<rparr>,
                            errorsLog := errorsLog q @ [LogLine ERROR msg],
                            stdout := stdout q @ [msg]\<rparr>)"
    by (simp add: listenerStep_def recv_def)
  have 5: "errorsLog p' @ errorLines (buf (errChan (logger p'))) =
               errorsLog p @ errorLines (buf (errChan (logger p))) @
                 errorLines (submittedErrors sprintf tr)"
    if "execute sprintf (Produce (CallError None) # tr) p = Proceeds p'" for tr p'
    using execute_ledger [OF that] by (simp add: ledger_def)
  show ?thesis
    using 1 2 3 4 5 by blast
qed

theorem nil_error_writes_nothing_witness:
  "0 < listeners startedProcess
   \<and> length (buf (errChan (logger startedProcess))) < cap (errChan (logger startedProcess))
   \<and> buf (errChan (logger startedProcess)) = []
   \<and> Error None (logger startedProcess) =
       Proceeds ((logger startedProcess)\<lparr>errChan := \<lparr>cap = 100, buf = [None]\<rparr>\<rparr>)
   \<and> listenerStep CaseErr
         (startedProcess\<lparr>logger := (logger startedProcess)\<lparr>errChan := \<lparr>cap = 100, buf = [None]\<rparr>\<rparr>\<rparr>)
       = Proceeds startedProcess
   \<and> execute plainSprintf [Produce (CallError None), Listen CaseErr] startedProcess
       = Proceeds startedProcess
   \<and> errorsLog startedProcess = [] \<and> stdout startedProcess = []
   \<and> execute plainSprintf [Produce (CallError (Some ''boom'')), Listen CaseErr] startedProcess
       = Proceeds (startedProcess\<lparr>errorsLog := [LogLine ERROR ''boom''], stdout := [''boom'']\<rparr>)"
proof -
  let ?q = "startedProcess\<lparr>logger := (logger startedProcess)\<lparr>errChan := \<lparr>cap = 100, buf = [None]\<rparr>\<rparr>\<rparr>"
  let ?b = "startedProcess\<lparr>logger := (logger startedProcess)
              \<lparr>errChan := \<lparr>cap = 100, buf = [Some ''boom'']\<rparr>\<rparr>\<rparr>"
  have run: "0 < listeners startedProcess"
    by (simp add: startedProcess_def)
  have room: "length (buf (errChan (logger startedProcess))) < cap (errChan (logger startedProcess))"
    by (simp add: startedProcess_def NewLogger_def make_chan_def)
  have ch: "errChan (logger startedProcess) = \<lparr>cap = 100, buf = []\<rparr>"
    by (simp add: startedProcess_def NewLogger_def make_chan_def)
  have empty: "buf (errChan (logger startedProcess)) = []"
    unfolding ch by simp
  have logs: "errorsLog startedProcess = []" "stdout startedProcess = []"
    by (simp_all add: startedProcess_def newProcess_def)
  note t = nil_error_writes_nothing [OF run room, of plainSprintf]
  have 1: "Error None (logger startedProcess) =
       Proceeds ((logger startedProcess)\<lparr>errChan := \<lparr>cap = 100, buf = [None]\<rparr>\<rparr>)"
    using t [THEN conjunct1] unfolding ch by simp
  have 2: "listenerStep CaseErr ?q = Proceeds startedProcess"
    using t [THEN conjunct2, THEN conjunct1] empty unfolding ch by simp
  have 3: "execute plainSprintf [Produce (CallError None), Listen CaseErr] startedProcess
       = Proceeds startedProcess"
    using 1 2 by simp
  have qb: "0 < listeners ?b" "buf (errChan (logger ?b)) = Some ''boom'' # []"
    using run by simp_all
  have "listenerStep CaseErr ?b =
      Proceeds (?b\<lparr>logger := (logger ?b)\<lparr>errChan := (errChan (logger ?b))\<lparr>buf := []\<rparr>\<rparr>,
                   errorsLog := errorsLog ?b @ [LogLine ERROR ''boom''],
                   stdout := stdout ?b @ [''boom'']\<rparr>)"
    using t [THEN conjunct2, THEN conjunct2, THEN conjunct2, THEN conjunct1] qb by blast
  then have 4: "listenerStep CaseErr ?b =
      Proceeds (startedProcess\<lparr>errorsLog := [LogLine ERROR ''boom''], stdout := [''boom'']\<rparr>)"
    using logs ch by simp
  have "Error (Some ''boom'') (logger startedProcess) =
       Proceeds ((logger startedProcess)\<lparr>errChan := \<lparr>cap = 100, buf = [Some ''boom'']\<rparr>\<rparr>)"
    unfolding Error_def send_def ch by simp
  then have 5: "execute plainSprintf [Produce (CallError (Some ''boom'')), Listen CaseErr]
      startedProcess
       = Proceeds (startedProcess\<lparr>errorsLog := [LogLine ERROR ''boom''], stdout := [''boom'']\<rparr>)"
    using 4 by simp
  show ?thesis
    using run room empty 1 2 3 logs 5 by blast
qed

text \<open>
  C9. In every execution that starts with the three channels as \<^verbatim>\<open>NewLogger\<close>
  made them, each channel keeps the capacity 100 and never holds more than 100
  records. Each of the seven methods proceeds exactly when its queue holds
  fewer than 100 records, and then its record is at the end of that queue and
  nothing else has changed; with 100 records in the queue the caller waits, and
  as soon as the listener has taken a record from that queue the call proceeds.
  No record is lost: for each kind, the lines written to the log file followed by
  the lines of the records still queued are the lines of the records submitted,
  in the order of submission (a \<^verbatim>\<open>nil\<close> error, which has no line, apart).
\<close>

theorem queues_bounded_blocking_lossless:
  assumes chans: "errChan (logger p) = errChan NewLogger" "warnChan (logger p) = warnChan NewLogger"
      "infoChan (logger p) = infoChan NewLogger"
    and ex: "execute sprintf tr p = Proceeds p'"
  shows "cap (errChan (logger p')) = 100 \<and> cap (warnChan (logger p')) = 100
         \<and> cap (infoChan (logger p')) = 100
         \<and> length (buf (errChan (logger p'))) \<le> 100
         \<and> length (buf (warnChan (logger p'))) \<le> 100
         \<and> length (buf (infoChan (logger p'))) \<le> 100
         \<and> (\<forall>s. submit sprintf s (logger p') =
                (if queueLength s (logger p') < 100
                 then Proceeds (enqueued sprintf s (logger p')) else Blocks))
         \<and> (\<forall>s p''. listenerStep (selectCaseOf s) p' = Proceeds p'' \<longrightarrow>
                submit sprintf s (logger p'') = Proceeds (enqueued sprintf s (logger p'')))
         \<and> errorsLog p' @ errorLines (buf (errChan (logger p'))) =
             errorsLog p @ errorLines (submittedErrors sprintf tr)
         \<and> warningsLog p' @ map (LogLine WARN) (buf (warnChan (logger p'))) =
             warningsLog p @ map (LogLine WARN) (submittedWarnings sprintf tr)
         \<and> infoLog p' @ map (LogLine INFO) (buf (infoChan (logger p'))) =
             infoLog p @ map (LogLine INFO) (submittedInfos sprintf tr)"
proof -
  have start: "cap (errChan (logger p)) = 100" "cap (warnChan (logger p)) = 100"
    "cap (infoChan (logger p)) = 100" "buf (errChan (logger p)) = []"
    "buf (warnChan (logger p)) = []" "buf (infoChan (logger p)) = []"
    using chans by (simp_all add: NewLogger_def make_chan_def)
  note l = execute_ledger [OF ex, unfolded ledger_def]
  have caps: "cap (errChan (logger p')) = 100" "cap (warnChan (logger p')) = 100"
    "cap (infoChan (logger p')) = 100"
    using l start by simp_all
  have lens: "length (buf (errChan (logger p'))) \<le> 100"
    "length (buf (warnChan (logger p'))) \<le> 100"
    "length (buf (infoChan (logger p'))) \<le> 100"
    using l start by simp_all
  have sub: "\<forall>s. submit sprintf s (logger p') =
                (if queueLength s (logger p') < 100
                 then Proceeds (enqueued sprintf s (logger p')) else Blocks)"
    using caps by (simp add: submit_caps100 caps100_def)
  have after: "submit sprintf s (logger p'') = Proceeds (enqueued sprintf s (logger p''))"
    if st: "listenerStep (selectCaseOf s) p' = Proceeds p''" for s p''
  proof -
    have "ledger p' [] [] [] p''" using st by (rule listen_ledger)
    then have c: "caps100 (logger p'')"
      using caps by (simp add: ledger_def caps100_def)
    have "queueLength s (logger p') \<le> 100"
      using lens by (cases s) simp_all
    with listenerStep_takes [OF st] have "queueLength s (logger p'') < 100" by simp
    then show ?thesis using submit_caps100 [OF c] by simp
  qed
  have cons: "errorsLog p' @ errorLines (buf (errChan (logger p'))) =
             errorsLog p @ errorLines (submittedErrors sprintf tr)"
    "warningsLog p' @ map (LogLine WARN) (buf (warnChan (logger p'))) =
             warningsLog p @ map (LogLine WARN) (submittedWarnings sprintf tr)"
    "infoLog p' @ map (LogLine INFO) (buf (infoChan (logger p'))) =
             infoLog p @ map (LogLine INFO) (submittedInfos sprintf tr)"
    using l start by simp_all
  show ?thesis
    using caps lens sub after cons by blast
qed

text \<open>
  A burst of a hundred warnings fills the queue; the next \<^verbatim>\<open>Warn\<close> or \<^verbatim>\<open>WarnF\<close>
  waits, and proceeds after one turn of the listener.
\<close>

theorem queues_bounded_blocking_lossless_witness:
  "errChan (logger startedProcess) = errChan NewLogger
   \<and> warnChan (logger startedProcess) = warnChan NewLogger
   \<and> infoChan (logger startedProcess) = infoChan NewLogger
   \<and> execute plainSprintf (replicate 100 (Produce (CallWarn ''slow upstream''))) startedProcess
       = Proceeds burstProcess
   \<and> length (buf (warnChan (logger burstProcess))) = 100
   \<and> cap (warnChan (logger burstProcess)) = 100
   \<and> Warn ''one more'' (logger burstProcess) = Blocks
   \<and> WarnF plainSprintf ''one more %v'' [''x''] (logger burstProcess) = Blocks
   \<and> execute plainSprintf (replicate 101 (Produce (CallWarn ''slow upstream''))) startedProcess
       = Blocks
   \<and> listenerStep CaseWarn burstProcess =
       Proceeds (startedProcess
         \<lparr>logger := (logger startedProcess)
            \<lparr>warnChan := \<lparr>cap = 100, buf = replicate 99 ''slow upstream''\<rparr>\<rparr>,
          warningsLog := [LogLine WARN ''slow upstream''], stdout := [''slow upstream'']\<rparr>)
   \<and> Warn ''one more''
        ((logger startedProcess)\<lparr>warnChan := \<lparr>cap = 100, buf = replicate 99 ''slow upstream''\<rparr>\<rparr>)
       = Proceeds ((logger startedProcess)
           \<lparr>warnChan := \<lparr>cap = 100, buf = replicate 99 ''slow upstream'' @ [''one more'']\<rparr>\<rparr>)
   \<and> warningsLog burstProcess @ map (LogLine WARN) (buf (warnChan (logger burstProcess)))
       = replicate 100 (LogLine WARN ''slow upstream'')"
proof -
  let ?drained = "startedProcess
         \<lparr>logger := (logger startedProcess)
            \<lparr>warnChan := \<lparr>cap = 100, buf = replicate 99 ''slow upstream''\<rparr>\<rparr>,
          warningsLog := [LogLine WARN ''slow upstream''], stdout := [''slow upstream'']\<rparr>"
  note t = queues_bounded_blocking_lossless [OF startedProcess_chans burst_execution]
  have len: "length (buf (warnChan (logger burstProcess))) = 100"
    by (simp add: burstProcess_def)
  have capw: "cap (warnChan (logger burstProcess)) = 100"
    using t by blast
  have sub: "submit plainSprintf s (logger burstProcess) =
                (if queueLength s (logger burstProcess) < 100
                 then Proceeds (enqueued plainSprintf s (logger burstProcess)) else Blocks)" for s
    using t by blast
  have b1: "Warn ''one more'' (logger burstProcess) = Blocks"
    using sub [of "CallWarn ''one more''"] len by simp
  have b2: "WarnF plainSprintf ''one more %v'' [''x''] (logger burstProcess) = Blocks"
    using sub [of "CallWarnF ''one more %v'' [''x'']"] len by simp
  have "(101::nat) = 100 + 1" by simp
  then have "replicate 101 (Produce (CallWarn ''slow upstream''))
      = replicate 100 (Produce (CallWarn ''slow upstream'')) @ [Produce (CallWarn ''slow upstream'')]"
    by (simp only: replicate_add) simp
  then have b3: "execute plainSprintf (replicate 101 (Produce (CallWarn ''slow upstream'')))
      startedProcess = Blocks"
    using sub [of "CallWarn ''slow upstream''"] len
    by (simp add: execute_append burst_execution)
  have "(100::nat) = Suc 99" by simp
  then have hd: "replicate 100 ''slow upstream'' = ''slow upstream'' # replicate 99 ''slow upstream''"
    by (simp only: replicate_Suc)
  have step: "listenerStep CaseWarn burstProcess = Proceeds ?drained"
    unfolding burstProcess_def hd
    by (simp add: listenerStep_def recv_def startedProcess_def newProcess_def)
  have after: "submit plainSprintf (CallWarn ''one more'') (logger ?drained)
      = Proceeds (enqueued plainSprintf (CallWarn ''one more'') (logger ?drained))"
    using t step by (metis selectCaseOf.simps(4))
  then have b4: "Warn ''one more''
        ((logger startedProcess)\<lparr>warnChan := \<lparr>cap = 100, buf = replicate 99 ''slow upstream''\<rparr>\<rparr>)
       = Proceeds ((logger startedProcess)
           \<lparr>warnChan := \<lparr>cap = 100, buf = replicate 99 ''slow upstream'' @ [''one more'']\<rparr>\<rparr>)"
    by simp
  have "submittedWarnings plainSprintf (replicate n (Produce (CallWarn w))) = replicate n w" for n w
    by (induction n) simp_all
  then have cons: "warningsLog burstProcess @ map (LogLine WARN) (buf (warnChan (logger burstProcess)))
       = replicate 100 (LogLine WARN ''slow upstream'')"
    using t by (simp add: startedProcess_def newProcess_def)
  show ?thesis
    using startedProcess_chans burst_execution len capw b1 b2 b3 step b4 cons by blast
qed

end
